theory Spec2Isabelle
  imports Main "HOL-Library.Multiset"
begin

section \<open>Syntax trees\<close>

text \<open>
  The program works on Python syntax trees (module \<open>ast\<close>).  Every node class that
  \<open>crosshairlib.py\<close> inspects by name is a constructor of its own; a Python list that is
  handed to \<open>matches\<close> as a whole is \<open>NList\<close>; every other node class (operators such
  as \<open>Add\<close>, \<open>And\<close>, \<open>LtE\<close>, keywords, \<dots>) is \<open>Other\<close> with its class name and its
  child nodes.  Expression contexts are kept only where the program reads them
  (\<open>visit_Tuple\<close>).
\<close>

datatype expr_context = Load | Store | Del

datatype node =
    Name string
  | Num int
  | NameConstant "bool option"
  | Call node "node list" "node list"
  | Module "node list"
  | Expr node
  | BinOp node node node
  | UnaryOp node node
  | BoolOp node "node list"
  | Compare node "node list" "node list"
  | Subscript node node
  | Index node
  | Slice "node option" "node option" "node option"
  | ExtSlice "node list"
  | Starred node
  | Tuple "node list" expr_context
  | Lambda "node list" node
  | Arg string "node option"
  | NList "node list"
  | Other string "node list"

text \<open>The fields, in Python's field order: \<open>Call func args keywords\<close>,
  \<open>BinOp left op right\<close>, \<open>UnaryOp op operand\<close>, \<open>BoolOp op values\<close>,
  \<open>Compare left ops comparators\<close>, \<open>Subscript value slice\<close>,
  \<open>Slice lower upper step\<close>, \<open>Lambda args body\<close>, \<open>Arg arg annotation\<close>.\<close>

datatype pytype =
    TName | TNum | TNameConstant | TCall | TModule | TExpr | TBinOp | TUnaryOp | TBoolOp
  | TCompare | TSubscript | TIndex | TSlice | TExtSlice | TStarred | TTuple | TLambda
  | Targ | Tlist | TOther string

text \<open>\<open>type(node)\<close>.\<close>

fun type_of :: "node \<Rightarrow> pytype" where
  "type_of (Name _) = TName"
| "type_of (Num _) = TNum"
| "type_of (NameConstant _) = TNameConstant"
| "type_of (Call _ _ _) = TCall"
| "type_of (Module _) = TModule"
| "type_of (Expr _) = TExpr"
| "type_of (BinOp _ _ _) = TBinOp"
| "type_of (UnaryOp _ _) = TUnaryOp"
| "type_of (BoolOp _ _) = TBoolOp"
| "type_of (Compare _ _ _) = TCompare"
| "type_of (Subscript _ _) = TSubscript"
| "type_of (Index _) = TIndex"
| "type_of (Slice _ _ _) = TSlice"
| "type_of (ExtSlice _) = TExtSlice"
| "type_of (Starred _) = TStarred"
| "type_of (Tuple _ _) = TTuple"
| "type_of (Lambda _ _) = TLambda"
| "type_of (Arg _ _) = Targ"
| "type_of (NList _) = Tlist"
| "type_of (Other c _) = TOther c"

text \<open>\<open>type(x).__name__\<close>.\<close>

fun type_name :: "pytype \<Rightarrow> string" where
  "type_name TName = ''Name''"
| "type_name TNum = ''Num''"
| "type_name TNameConstant = ''NameConstant''"
| "type_name TCall = ''Call''"
| "type_name TModule = ''Module''"
| "type_name TExpr = ''Expr''"
| "type_name TBinOp = ''BinOp''"
| "type_name TUnaryOp = ''UnaryOp''"
| "type_name TBoolOp = ''BoolOp''"
| "type_name TCompare = ''Compare''"
| "type_name TSubscript = ''Subscript''"
| "type_name TIndex = ''Index''"
| "type_name TSlice = ''Slice''"
| "type_name TExtSlice = ''ExtSlice''"
| "type_name TStarred = ''Starred''"
| "type_name TTuple = ''Tuple''"
| "type_name TLambda = ''Lambda''"
| "type_name Targ = ''arg''"
| "type_name Tlist = ''list''"
| "type_name (TOther c) = c"

section \<open>Exceptions\<close>

text \<open>Every \<open>raise\<close> of the program, and every Python run-time error a modelled
  statement can produce, is a value; a function that can raise returns
  \<open>error + 'a\<close> with \<open>Inl\<close> the exception.\<close>

datatype error =
    IndexError
  | KeyError string
  | AttributeError string
  | NameError string
  | TypeError
  | UnhandledNodeType pytype
  | UnhandledTransformation pytype
  | MultiplyDefined string
  | UndefinedIdentifier string
  | InvalidIntrinsic string
  | SoundnessFailure
  | Z3Exception string
  | PlainException

section \<open>Pattern engine: matching\<close>

type_synonym bindings = "string \<rightharpoonup> node"

text \<open>
  \<open>matches(node, patt, bind)\<close> mutates the dictionary \<open>bind\<close>; the model returns the
  verdict together with the dictionary as the call leaves it.  \<open>matches_all\<close> is the
  generator expression \<open>all(matches(ni, pi, b) for (ni, pi) in zip(n, p))\<close>: \<open>zip\<close>
  stops at the shorter list and \<open>all\<close> stops at the first \<open>False\<close>.  The \<open>case\<close> on
  \<open>node\<close> in each equation is the test \<open>typ is not type(node)\<close> followed by the entry
  of \<open>_MATCHER\<close> for \<open>typ\<close>; a pattern class with no entry raises.  \<open>ast\<close> nodes have no
  \<open>__eq__\<close>, so \<open>n.annotation == p.annotation\<close> compares identities: for the distinct
  trees of a pattern and a subject it holds only when both are \<open>None\<close>.
\<close>

function matches :: "node \<Rightarrow> node \<Rightarrow> bindings \<Rightarrow> error + bool \<times> bindings"
  and matches_all :: "node list \<Rightarrow> node list \<Rightarrow> bindings \<Rightarrow> error + bool \<times> bindings"
where
  "matches node (Name pid) bind =
     (if pid = [] then Inl IndexError
      else if hd pid = CHR ''$'' then Inr (True, bind(tl pid \<mapsto> node))
      else (case node of
              Name nid \<Rightarrow> Inr (nid = pid, bind)
            | _ \<Rightarrow> Inr (False, Map.empty)))"
| "matches node (Call pf pargs pkw) bind =
     (case node of
        Call nf nargs nkw \<Rightarrow>
          (case matches nf pf bind of
             Inl e \<Rightarrow> Inl e
           | Inr (False, b) \<Rightarrow> Inr (False, b)
           | Inr (True, b) \<Rightarrow>
               if length nargs \<noteq> length pargs then Inr (False, b)
               else matches_all nargs pargs b)
      | _ \<Rightarrow> Inr (False, Map.empty))"
| "matches node (Module pbody) bind =
     (case node of
        Module nbody \<Rightarrow> matches (NList nbody) (NList pbody) bind
      | _ \<Rightarrow> Inr (False, Map.empty))"
| "matches node (Expr pv) bind =
     (case node of
        Expr nv \<Rightarrow> matches nv pv bind
      | _ \<Rightarrow> Inr (False, Map.empty))"
| "matches node (BinOp pl pop pr) bind =
     (case node of
        BinOp nl nop nr \<Rightarrow>
          if type_of nop \<noteq> type_of pop then Inr (False, bind)
          else (case matches nl pl bind of
                  Inl e \<Rightarrow> Inl e
                | Inr (False, b) \<Rightarrow> Inr (False, b)
                | Inr (True, b) \<Rightarrow> matches nr pr b)
      | _ \<Rightarrow> Inr (False, Map.empty))"
| "matches node (BoolOp pop pvalues) bind =
     (case node of
        BoolOp nop nvalues \<Rightarrow>
          if type_of nop \<noteq> type_of pop then Inr (False, bind)
          else matches_all nvalues pvalues bind
      | _ \<Rightarrow> Inr (False, Map.empty))"
| "matches node (Num pn) bind =
     (case node of
        Num nn \<Rightarrow> Inr (nn = pn, bind)
      | _ \<Rightarrow> Inr (False, Map.empty))"
| "matches node (NList ps) bind =
     (case node of
        NList ns \<Rightarrow> matches_all ns ps bind
      | _ \<Rightarrow> Inr (False, Map.empty))"
| "matches node (Arg parg pann) bind =
     (case node of
        Arg narg nann \<Rightarrow> Inr (narg = parg \<and> nann = None \<and> pann = None, bind)
      | _ \<Rightarrow> Inr (False, Map.empty))"
| "matches node (NameConstant pv) bind =
     (case node of
        NameConstant nv \<Rightarrow> Inl (UnhandledNodeType TNameConstant)
      | _ \<Rightarrow> Inr (False, Map.empty))"
| "matches node (UnaryOp pop po) bind =
     (case node of
        UnaryOp nop no \<Rightarrow> Inl (UnhandledNodeType TUnaryOp)
      | _ \<Rightarrow> Inr (False, Map.empty))"
| "matches node (Compare pl pops pcs) bind =
     (case node of
        Compare nl nops ncs \<Rightarrow> Inl (UnhandledNodeType TCompare)
      | _ \<Rightarrow> Inr (False, Map.empty))"
| "matches node (Subscript pv ps) bind =
     (case node of
        Subscript nv ns \<Rightarrow> Inl (UnhandledNodeType TSubscript)
      | _ \<Rightarrow> Inr (False, Map.empty))"
| "matches node (Index pv) bind =
     (case node of
        Index nv \<Rightarrow> Inl (UnhandledNodeType TIndex)
      | _ \<Rightarrow> Inr (False, Map.empty))"
| "matches node (Slice pl pu ps) bind =
     (case node of
        Slice nl nu ns \<Rightarrow> Inl (UnhandledNodeType TSlice)
      | _ \<Rightarrow> Inr (False, Map.empty))"
| "matches node (ExtSlice pd) bind =
     (case node of
        ExtSlice nd \<Rightarrow> Inl (UnhandledNodeType TExtSlice)
      | _ \<Rightarrow> Inr (False, Map.empty))"
| "matches node (Starred pv) bind =
     (case node of
        Starred nv \<Rightarrow> Inl (UnhandledNodeType TStarred)
      | _ \<Rightarrow> Inr (False, Map.empty))"
| "matches node (Tuple pe pc) bind =
     (case node of
        Tuple ne nc \<Rightarrow> Inl (UnhandledNodeType TTuple)
      | _ \<Rightarrow> Inr (False, Map.empty))"
| "matches node (Lambda pa pb) bind =
     (case node of
        Lambda na nb \<Rightarrow> Inl (UnhandledNodeType TLambda)
      | _ \<Rightarrow> Inr (False, Map.empty))"
| "matches node (Other pc pch) bind =
     (if type_of node = TOther pc then Inl (UnhandledNodeType (TOther pc))
      else Inr (False, Map.empty))"
| "matches_all [] ps bind = Inr (True, bind)"
| "matches_all (n # ns) [] bind = Inr (True, bind)"
| "matches_all (n # ns) (p # ps) bind =
     (case matches n p bind of
        Inl e \<Rightarrow> Inl e
      | Inr (False, b) \<Rightarrow> Inr (False, b)
      | Inr (True, b) \<Rightarrow> matches_all ns ps b)"
  by pat_completeness auto
termination
  by (relation "measure (\<lambda>x. case x of
        Inl (n, p, b) \<Rightarrow> 2 * size p + (case p of Module _ \<Rightarrow> 1 | _ \<Rightarrow> 0)
      | Inr (ns, ps, b) \<Rightarrow> 2 * size_list size ps + 1)")
     (auto split: node.splits)

section \<open>Pattern engine: substitution\<close>

text \<open>
  \<open>ast.NodeTransformer.generic_visit\<close> walks the fields of a node in order, visits
  every child node (alone or inside a list field) and stores the result back.
  \<open>children\<close> lists the child nodes in that order and \<open>with_children\<close> stores a list of
  results back.
\<close>

fun option_list :: "'a option \<Rightarrow> 'a list" where
  "option_list None = []"
| "option_list (Some x) = [x]"

fun refill :: "node option \<Rightarrow> node list \<Rightarrow> node option \<times> node list" where
  "refill None cs = (None, cs)"
| "refill (Some x) [] = (Some x, [])"
| "refill (Some x) (c # cs) = (Some c, cs)"

fun children :: "node \<Rightarrow> node list" where
  "children (Name _) = []"
| "children (Num _) = []"
| "children (NameConstant _) = []"
| "children (Call f args kws) = f # args @ kws"
| "children (Module body) = body"
| "children (Expr v) = [v]"
| "children (BinOp l op r) = [l, op, r]"
| "children (UnaryOp op v) = [op, v]"
| "children (BoolOp op vs) = op # vs"
| "children (Compare l ops cs) = l # ops @ cs"
| "children (Subscript v s) = [v, s]"
| "children (Index v) = [v]"
| "children (Slice l u s) = option_list l @ option_list u @ option_list s"
| "children (ExtSlice ds) = ds"
| "children (Starred v) = [v]"
| "children (Tuple es _) = es"
| "children (Lambda as b) = as @ [b]"
| "children (Arg _ ann) = option_list ann"
| "children (NList xs) = xs"
| "children (Other _ cs) = cs"

fun with_children :: "node \<Rightarrow> node list \<Rightarrow> node" where
  "with_children (Call f args kws) (c # cs) =
     Call c (take (length args) cs) (drop (length args) cs)"
| "with_children (Module body) cs = Module cs"
| "with_children (Expr v) [c] = Expr c"
| "with_children (BinOp l op r) [a, b, c] = BinOp a b c"
| "with_children (UnaryOp op v) [a, b] = UnaryOp a b"
| "with_children (BoolOp op vs) (c # cs) = BoolOp c cs"
| "with_children (Compare l ops cmps) (c # cs) =
     Compare c (take (length ops) cs) (drop (length ops) cs)"
| "with_children (Subscript v s) [a, b] = Subscript a b"
| "with_children (Index v) [c] = Index c"
| "with_children (Slice l u s) cs =
     (case refill l cs of (l', cs1) \<Rightarrow>
      case refill u cs1 of (u', cs2) \<Rightarrow>
      case refill s cs2 of (s', cs3) \<Rightarrow> Slice l' u' s')"
| "with_children (ExtSlice ds) cs = ExtSlice cs"
| "with_children (Starred v) [c] = Starred c"
| "with_children (Tuple es ctx) cs = Tuple cs ctx"
| "with_children (Lambda as b) cs = Lambda (butlast cs) (last cs)"
| "with_children (Arg a ann) cs = Arg a (fst (refill ann cs))"
| "with_children (NList xs) cs = NList cs"
| "with_children (Other c chs) cs = Other c cs"
| "with_children n cs = n"

lemma size_child: "c \<in> set (children n) \<Longrightarrow> size c < size n"
proof (cases n)
  case (Slice l u s)
  then show "c \<in> set (children n) \<Longrightarrow> size c < size n"
    by (cases l; cases u; cases s) auto
next
  case (Arg a ann)
  then show "c \<in> set (children n) \<Longrightarrow> size c < size n"
    by (cases ann) auto
qed (auto simp: less_Suc_eq_le intro: size_list_estimation' trans_le_add1 trans_le_add2)

text \<open>
  \<open>replace_pattern_vars(node, bindings)\<close> deep-copies the template and runs
  \<open>PatternVarReplacer\<close> over the copy: a \<open>Name\<close> whose identifier starts with \<open>$\<close>
  becomes (a copy of) the subtree bound to the rest of the identifier, any other node
  is traversed by \<open>generic_visit\<close>, child by child; the first child that raises ends
  the traversal (\<open>sequence\<close>).  A Python list in a node position has no \<open>_fields\<close>.
\<close>

fun sequence :: "(error + 'a) list \<Rightarrow> error + 'a list" where
  "sequence [] = Inr []"
| "sequence (Inl e # rs) = Inl e"
| "sequence (Inr x # rs) = (case sequence rs of Inl e \<Rightarrow> Inl e | Inr xs \<Rightarrow> Inr (x # xs))"

function replace_pattern_vars :: "node \<Rightarrow> bindings \<Rightarrow> error + node" where
  "replace_pattern_vars node bindings =
     (case node of
        Name nodeid \<Rightarrow>
          (if nodeid = [] then Inl IndexError
           else if hd nodeid = CHR ''$'' then
             (case bindings (tl nodeid) of
                None \<Rightarrow> Inl (KeyError (tl nodeid))
              | Some t \<Rightarrow> Inr t)
           else Inr node)
      | NList xs \<Rightarrow> Inl (AttributeError ''_fields'')
      | _ \<Rightarrow>
          (case sequence (map (\<lambda>c. replace_pattern_vars c bindings) (children node)) of
             Inl e \<Rightarrow> Inl e
           | Inr cs \<Rightarrow> Inr (with_children node cs)))"
  by pat_completeness auto
termination
  by (relation "measure (\<lambda>(n, b). size n)")
     (auto simp del: children.simps dest!: size_child)

section \<open>Pattern engine: rules and engines\<close>

text \<open>
  A rule is the triple \<open>(patt, repl, cond)\<close>.  The condition is called with the
  bindings dictionary, which it may update (\<open>normalize_binop\<close> does), and it may raise.
  The rule index is a \<open>collections.defaultdict(list)\<close>: a hash with no entry reads as the
  empty list.
\<close>

type_synonym cond = "bindings \<Rightarrow> error + bool \<times> bindings"

type_synonym rule = "node \<times> node \<times> cond"


datatype engine =
    RewriteEngine "int \<Rightarrow> rule list"
  | WrappedRewriteEngine "int \<Rightarrow> rule list" engine

text \<open>\<open>RewriteEngine.lookup\<close> and \<open>WrappedRewriteEngine.lookup\<close>.\<close>

fun lookup :: "engine \<Rightarrow> int \<Rightarrow> rule list" where
  "lookup (RewriteEngine index) hsh = index hsh"
| "lookup (WrappedRewriteEngine index inner) hsh =
     (let r1 = index hsh; r2 = lookup inner hsh
      in if r1 = [] then r2
         else if r2 = [] then r1
         else r1 @ r2)"

text \<open>
  \<open>patthash(node)\<close>.  Python's \<open>hash\<close> of a class object is fixed by the run, not by the
  program, so it is the parameter \<open>hash_type\<close>; \<open>hash(0)\<close> is \<open>0\<close>, and \<open>n.func\<close> is a
  node, never a \<open>str\<close>, so a \<open>Call\<close> hashes its discriminant to \<open>0\<close>.
\<close>

fun sub_hash :: "(pytype \<Rightarrow> int) \<Rightarrow> node \<Rightarrow> int" where
  "sub_hash hash_type (BinOp l op r) = hash_type (type_of op)"
| "sub_hash hash_type (Call f args kws) = 0"
| "sub_hash hash_type (BoolOp op vs) = hash_type (type_of op)"
| "sub_hash hash_type n = 0"

definition patthash :: "(pytype \<Rightarrow> int) \<Rightarrow> node \<Rightarrow> int" where
  "patthash hash_type node = hash_type (type_of node) * 2 ^ 8 + sub_hash hash_type node"

section \<open>Pattern engine: rewriting\<close>

text \<open>
  The \<open>for candidate in self.lookup(patthash(node))\<close> loop of \<open>rewrite_top\<close>: the one
  dictionary \<open>bind\<close> is handed to every candidate in turn.  The result is the
  replacement of the first candidate that matches and whose condition holds, or
  \<open>None\<close> when the loop ends with \<open>matched\<close> still false.
\<close>

fun try_candidates :: "node \<Rightarrow> rule list \<Rightarrow> bindings \<Rightarrow> error + node option" where
  "try_candidates node [] bind = Inr None"
| "try_candidates node ((patt, repl, cond) # candidates) bind =
     (case matches node patt bind of
        Inl e \<Rightarrow> Inl e
      | Inr (False, b) \<Rightarrow> try_candidates node candidates b
      | Inr (True, b) \<Rightarrow>
          (case cond b of
             Inl e \<Rightarrow> Inl e
           | Inr (False, b') \<Rightarrow> try_candidates node candidates b'
           | Inr (True, b') \<Rightarrow>
               (case replace_pattern_vars repl b' of
                  Inl e \<Rightarrow> Inl e
                | Inr newnode \<Rightarrow> Inr (Some newnode))))"

text \<open>
  \<open>rewrite_top\<close> and \<open>generic_visit\<close> are \<open>while True\<close> loops that a rule set can keep
  running forever, so both take fuel and answer \<open>None\<close> when it runs out.
  \<open>rewrite_top\<close> returns the node together with \<open>newnode is not node\<close>: a replacement is
  always a fresh copy, so the flag is true exactly when some candidate fired.
\<close>

fun rewrite_top ::
  "(pytype \<Rightarrow> int) \<Rightarrow> engine \<Rightarrow> nat \<Rightarrow> node \<Rightarrow> bool \<Rightarrow> (error + bool \<times> node) option"
where
  "rewrite_top hash_type self 0 node replaced = None"
| "rewrite_top hash_type self (Suc fuel) node replaced =
     (case try_candidates node (lookup self (patthash hash_type node)) Map.empty of
        Inl e \<Rightarrow> Some (Inl e)
      | Inr None \<Rightarrow> Some (Inr (replaced, node))
      | Inr (Some newnode) \<Rightarrow> rewrite_top hash_type self fuel newnode True)"

text \<open>
  \<open>RewriteEngine\<close> defines no \<open>visit_\<close>\<^emph>\<open>Class\<close> method, so \<open>visit\<close> is \<open>generic_visit\<close>
  for every node; \<open>rewrite\<close> is \<open>visit\<close>.
\<close>

fun generic_visit ::
  "(pytype \<Rightarrow> int) \<Rightarrow> engine \<Rightarrow> nat \<Rightarrow> node \<Rightarrow> (error + node) option"
  and visit_children ::
  "(pytype \<Rightarrow> int) \<Rightarrow> engine \<Rightarrow> nat \<Rightarrow> node list \<Rightarrow> (error + node list) option"
where
  "generic_visit hash_type self 0 node = None"
| "generic_visit hash_type self (Suc fuel) node =
     (case node of
        NList xs \<Rightarrow> Some (Inl (AttributeError ''_fields''))
      | _ \<Rightarrow>
        (case visit_children hash_type self fuel (children node) of
           None \<Rightarrow> None
         | Some (Inl e) \<Rightarrow> Some (Inl e)
         | Some (Inr cs) \<Rightarrow>
             (case rewrite_top hash_type self fuel (with_children node cs) False of
                None \<Rightarrow> None
              | Some (Inl e) \<Rightarrow> Some (Inl e)
              | Some (Inr (False, node')) \<Rightarrow> Some (Inr node')
              | Some (Inr (True, newnode)) \<Rightarrow> generic_visit hash_type self fuel newnode)))"
| "visit_children hash_type self fuel [] = Some (Inr [])"
| "visit_children hash_type self fuel (c # cs) =
     (case generic_visit hash_type self fuel c of
        None \<Rightarrow> None
      | Some (Inl e) \<Rightarrow> Some (Inl e)
      | Some (Inr c') \<Rightarrow>
          (case visit_children hash_type self fuel cs of
             None \<Rightarrow> None
           | Some (Inl e) \<Rightarrow> Some (Inl e)
           | Some (Inr cs') \<Rightarrow> Some (Inr (c' # cs'))))"

definition rewrite ::
  "(pytype \<Rightarrow> int) \<Rightarrow> engine \<Rightarrow> nat \<Rightarrow> node \<Rightarrow> (error + node) option" where
  "rewrite hash_type self fuel node = generic_visit hash_type self fuel node"





section \<open>Definition registry\<close>

text \<open>
  A \<open>FunctionDef\<close> node, with the fields the registry reads.  \<open>fn_args\<close>,
  \<open>argument_preconditions\<close> and \<open>astcall\<close> come from the module \<open>asthelpers\<close>, which is
  not part of the sources: they are parameters, collected in \<open>asthelpers\<close>.
\<close>

record FunctionDef =
  fd_name :: string
  fd_args :: "node list"
  fd_body :: "node list"
  fd_decorator_list :: "node list"
  fd_returns :: "node option"

record asthelpers =
  fn_args :: "FunctionDef \<Rightarrow> node list"
  argument_preconditions :: "node list \<Rightarrow> node list"
  astcall :: "node \<Rightarrow> node list \<Rightarrow> node"

text \<open>\<open>a.arg\<close>: only an \<open>arg\<close> node has the attribute.\<close>

fun arg_of :: "node \<Rightarrow> error + string" where
  "arg_of (Arg a ann) = Inr a"
| "arg_of n = Inl (AttributeError ''arg'')"

definition fn_annotation_assertion :: "asthelpers \<Rightarrow> FunctionDef \<Rightarrow> error + FunctionDef option" where
  "fn_annotation_assertion H fn =
     (let args = fn_args H fn;
          preconditions = argument_preconditions H args
      in if preconditions = [] \<and> fd_returns fn = None then Inr None
         else
           let predicate = (case fd_returns fn of Some r \<Rightarrow> r | None \<Rightarrow> Name ''isdefined'')
           in case sequence (map arg_of args) of
                Inl e \<Rightarrow> Inl e
              | Inr names \<Rightarrow>
                  let varnamerefs = map Name names;
                      expectation = astcall H predicate [astcall H (Name (fd_name fn)) varnamerefs]
                  in Inr (Some \<lparr> fd_name = ''_assertdef_'' @ fd_name fn,
                                 fd_args = fd_args fn,
                                 fd_body = [Other ''Return'' [expectation]],
                                 fd_decorator_list = [],
                                 fd_returns = None \<rparr>))"

text \<open>
  \<open>FnInfo\<close>; the fields carry the prefix \<open>fi_\<close> (\<open>definition\<close> is a keyword).  The
  module that owns it is named by a string.  The methods mutate the
  object and the module-level dictionary \<open>_fndef_to_moduleinfo\<close>; the model passes both
  in and returns both, together with the exception that ended the call, if any (an
  exception does not undo the assignments made before it).
\<close>

record FnInfo =
  fi_name :: string
  fi_moduleinfo :: string
  fi_assertions :: "FunctionDef list"
  fi_definition :: "FunctionDef option"
  fi_definitional_assertion :: "FunctionDef option"

type_synonym fndef_to_moduleinfo = "FunctionDef \<rightharpoonup> string"

definition FnInfo_init :: "string \<Rightarrow> string \<Rightarrow> FnInfo" where
  "FnInfo_init n m =
     \<lparr> fi_name = n, fi_moduleinfo = m, fi_assertions = [], fi_definition = None,
       fi_definitional_assertion = None \<rparr>"

definition add_assertion ::
  "FnInfo \<Rightarrow> fndef_to_moduleinfo \<Rightarrow> FunctionDef \<Rightarrow> error option \<times> FnInfo \<times> fndef_to_moduleinfo"
where
  "add_assertion self g assertion =
     (None, self\<lparr> fi_assertions := fi_assertions self @ [assertion] \<rparr>,
      g(assertion \<mapsto> fi_moduleinfo self))"

definition set_definition ::
  "asthelpers \<Rightarrow> FnInfo \<Rightarrow> fndef_to_moduleinfo \<Rightarrow> FunctionDef \<Rightarrow>
     error option \<times> FnInfo \<times> fndef_to_moduleinfo"
where
  "set_definition H self g defn =
     (if fi_definition self \<noteq> None then (Some (MultiplyDefined (fi_name self)), self, g)
      else
        let self1 = self\<lparr> fi_definition := Some defn \<rparr>;
            g1 = g(defn \<mapsto> fi_moduleinfo self)
        in case fn_annotation_assertion H defn of
             Inl e \<Rightarrow> (Some e, self1, g1)
           | Inr None \<Rightarrow> (None, self1, g1)
           | Inr (Some da) \<Rightarrow> (None, self1\<lparr> fi_definitional_assertion := Some da \<rparr>, g1))"

definition get_definition :: "FnInfo \<Rightarrow> FunctionDef option" where
  "get_definition self = fi_definition self"

definition get_assertions :: "FnInfo \<Rightarrow> FunctionDef list" where
  "get_assertions self = fi_assertions self"

text \<open>
  The two mutating methods of \<open>FnInfo\<close> as commands, and a caller that issues any
  sequence of them on one \<open>FnInfo\<close>, going on after an exception.
\<close>

datatype fn_command = SetDefinition FunctionDef | AddAssertion FunctionDef

fun run_command ::
  "asthelpers \<Rightarrow> fn_command \<Rightarrow> FnInfo \<times> fndef_to_moduleinfo \<Rightarrow> FnInfo \<times> fndef_to_moduleinfo"
where
  "run_command H (SetDefinition d) (self, g) = snd (set_definition H self g d)"
| "run_command H (AddAssertion a) (self, g) = snd (add_assertion self g a)"

fun run_commands ::
  "asthelpers \<Rightarrow> fn_command list \<Rightarrow> FnInfo \<times> fndef_to_moduleinfo \<Rightarrow> FnInfo \<times> fndef_to_moduleinfo"
where
  "run_commands H [] st = st"
| "run_commands H (c # cs) st = run_commands H cs (run_command H c st)"

text \<open>A stand-in for the missing helpers, and two definitions, for the examples.\<close>

definition plain_helpers :: asthelpers where
  "plain_helpers =
     \<lparr> fn_args = fd_args, argument_preconditions = (\<lambda>args. []),
       astcall = (\<lambda>f args. Call f args []) \<rparr>"

definition def_one :: FunctionDef where
  "def_one = \<lparr> fd_name = ''f'', fd_args = [Arg ''x'' None], fd_body = [Other ''Return'' [Num 1]],
               fd_decorator_list = [], fd_returns = None \<rparr>"

definition def_two :: FunctionDef where
  "def_two = \<lparr> fd_name = ''f'', fd_args = [Arg ''x'' None], fd_body = [Other ''Return'' [Num 2]],
               fd_decorator_list = [], fd_returns = None \<rparr>"

section \<open>Solver adapter\<close>

text \<open>
  \<open>Z3Statement\<close>: a compiled formula with its source and an optional score.  The
  formulas are whatever the solver takes (\<open>'f\<close>) and the scores any totally ordered
  numbers (\<open>'s\<close>).
\<close>

record ('s, 'f) Z3Statement =
  score :: "'s option"
  src_ast :: "FunctionDef option"
  expr :: 'f

text \<open>
  The solver is \<open>z3\<close>, outside the program: what \<open>solver.check()\<close> and
  \<open>solver.unsat_core()\<close> answer for the assertions it was given are parameters.
  \<open>check\<close> may raise a \<open>Z3Exception\<close> carrying a value.
\<close>

datatype 'f assertion = Add 'f | AssertAndTrack 'f string

datatype check_result = unsat | sat | unknown | CheckRaises string

record 'f solver =
  check :: "'f assertion list \<Rightarrow> check_result"
  unsat_core :: "'f assertion list \<Rightarrow> string list"
  z3_Not :: "'f \<Rightarrow> 'f"

text \<open>\<open>'{}'.format(idx)\<close> for a natural number.\<close>

fun format_nat :: "nat \<Rightarrow> string" where
  "format_nat n =
     (if n < 10 then [''0123456789'' ! n]
      else format_nat (n div 10) @ [''0123456789'' ! (n mod 10)])"

declare format_nat.simps [simp del]

text \<open>Lines 803 to 809 of \<open>solve\<close>: the statements that will be asserted.
  \<open>list.sort\<close> is stable, as \<open>sort_key\<close> is.\<close>

definition select_assumptions :: "('s::linorder, 'f) Z3Statement list \<Rightarrow> ('s, 'f) Z3Statement list" where
  "select_assumptions assumptions =
     (let required_assumptions = filter (\<lambda>a. score a = None) assumptions;
          assumptions1 = filter (\<lambda>a. score a \<noteq> None) assumptions;
          assumptions2 = sort_key (\<lambda>a. the (score a)) assumptions1;
          assumptions3 = take 120 assumptions2
      in required_assumptions @ assumptions3)"

text \<open>\<open>stmt_index\<close>: in tracked mode the label of every asserted statement, in order.\<close>

definition stmt_index :: "bool \<Rightarrow> ('s, 'f) Z3Statement list \<Rightarrow> (string \<times> ('s, 'f) Z3Statement) list" where
  "stmt_index make_repro_case assumptions =
     (if make_repro_case then []
      else map (\<lambda>(idx, assumption). (''assumption'' @ format_nat idx, assumption))
             (enumerate 0 assumptions))"

text \<open>Lines 812 to 822: everything the solver is given, in order.\<close>

definition solver_assertions ::
  "'f solver \<Rightarrow> bool \<Rightarrow> ('s, 'f) Z3Statement list \<Rightarrow> 'f \<Rightarrow> 'f assertion list" where
  "solver_assertions s make_repro_case assumptions conclusion =
     (if make_repro_case then
        map (\<lambda>assumption. Add (expr assumption)) assumptions @ [Add (z3_Not s conclusion)]
      else
        map (\<lambda>(label, assumption). AssertAndTrack (expr assumption) label)
          (stmt_index make_repro_case assumptions)
        @ [AssertAndTrack (z3_Not s conclusion) ''conclusion''])"

text \<open>The loop that prints the core: it reads \<open>stmt_index[stmt]\<close> for every label of
  the core other than \<open>conclusion\<close>.\<close>

fun print_core :: "(string \<times> 'a) list \<Rightarrow> string list \<Rightarrow> error + unit" where
  "print_core idx [] = Inr ()"
| "print_core idx (stmt # core) =
     (if stmt = ''conclusion'' then print_core idx core
      else (case map_of idx stmt of
              None \<Rightarrow> Inl (KeyError stmt)
            | Some a \<Rightarrow> print_core idx core))"

definition report ::
  "(string \<times> ('s, 'f) Z3Statement) list \<Rightarrow> string list \<Rightarrow> (FunctionDef \<times> bool) list" where
  "report idx core =
     concat (map (\<lambda>(k, a). case src_ast a of None \<Rightarrow> [] | Some src \<Rightarrow> [(src, k \<in> set core)]) idx)"

text \<open>
  \<open>solve(assumptions, conclusion, oracle)\<close>.  \<open>make_repro_case\<close> is the environment
  switch \<open>CH_REPRO\<close>.  The result is the pair \<open>(ret, report)\<close> with \<open>ret\<close> one of
  \<open>True\<close>, \<open>False\<close>, \<open>None\<close>; the report keeps the source node where the program
  prints it with \<open>unparse\<close>.  The exception raised for a core without the conclusion
  is a plain \<open>Exception\<close>, which the \<open>except z3.z3types.Z3Exception\<close> clause does not
  catch.  Printing and the file \<open>repro.smt2\<close> are left out.
\<close>

definition solve ::
  "'f solver \<Rightarrow> bool \<Rightarrow> ('s::linorder, 'f) Z3Statement list \<Rightarrow> 'f \<Rightarrow>
     error + bool option \<times> (FunctionDef \<times> bool) list"
where
  "solve s make_repro_case assumptions conclusion =
     (let assumptions' = select_assumptions assumptions;
          idx = stmt_index make_repro_case assumptions';
          asserted = solver_assertions s make_repro_case assumptions' conclusion
      in case check s asserted of
           unsat \<Rightarrow>
             if \<not> make_repro_case then
               (let core = unsat_core s asserted
                in case print_core idx core of
                     Inl e \<Rightarrow> Inl e
                   | Inr u \<Rightarrow>
                       if ''conclusion'' \<notin> set core then Inl SoundnessFailure
                       else Inr (Some True, report idx core))
             else Inr (Some True, report idx [])
         | sat \<Rightarrow> Inr (Some False, report idx [])
         | unknown \<Rightarrow> Inr (None, report idx [])
         | CheckRaises v \<Rightarrow>
             if v \<noteq> ''canceled'' then Inl (Z3Exception v)
             else Inr (None, report idx []))"

text \<open>The formula of an assertion, tracked or not.\<close>

fun formula_of :: "'f assertion \<Rightarrow> 'f" where
  "formula_of (Add f) = f"
| "formula_of (AssertAndTrack f l) = f"

text \<open>Example statements and an example solver that finds the axioms contradictory
  on their own.\<close>

definition stmt_required :: "(int, string) Z3Statement" where
  "stmt_required = \<lparr> score = None, src_ast = None, expr = ''false'' \<rparr>"

definition stmt_scored :: "int \<Rightarrow> (int, string) Z3Statement" where
  "stmt_scored k = \<lparr> score = Some k, src_ast = None, expr = ''axiom'' \<rparr>"

definition axioms_only_solver :: "string solver" where
  "axioms_only_solver =
     \<lparr> check = (\<lambda>asserted. unsat), unsat_core = (\<lambda>asserted. [''assumption0'']),
       z3_Not = (\<lambda>f. ''not '' @ f) \<rparr>"

text \<open>An example solver that finds a model.\<close>

definition sat_solver :: "string solver" where
  "sat_solver =
     \<lparr> check = (\<lambda>asserted. sat), unsat_core = (\<lambda>asserted. []),
       z3_Not = (\<lambda>f. ''not '' @ f) \<rparr>"

section \<open>Logic compiler\<close>

text \<open>
  Terms of the \<open>z3\<close> datatype sort \<open>Unk\<close>: its constructors, constants of the sort, the
  application function \<open>App\<close> (printed as a dot) and \<open>Concat\<close>.
\<close>

datatype z3 =
    Const string
  | Unk_none
  | Unk_bool bool
  | Unk_int int
  | Unk_func string
  | Unk_a z3 z3
  | Unk_empty
  | Unk_undef
  | App z3 z3
  | Concat z3 z3

text \<open>
  What the methods of \<open>Z3Transformer\<close> pass around: terms of sort \<open>Unk\<close>, the
  \<open>ast.Starred\<close> wrapper that \<open>visit_Starred\<close> puts around a compiled value, \<open>None\<close>,
  definitions (a \<open>FunctionDef\<close>, or an \<open>arg\<close> or unresolved \<open>Name\<close> node), the members of
  \<open>Z\<close> (Python callables, named by their attribute), and any other object.
\<close>

datatype obj =
    OTerm z3
  | OStarred obj
  | ONone
  | OFunctionDef FunctionDef
  | ONode node
  | OIntrinsic string
  | OOther string

text \<open>
  \<open>Z3BindingEnv\<close> is a named tuple with exactly the fields \<open>refs\<close> and \<open>support\<close>.  The
  transformer holds it as \<open>self.env\<close>, next to the scope stack it inherits from
  \<open>ScopeTracker\<close> (module \<open>asthelpers\<close>, not part of the sources; its type is \<open>'sc\<close>).
\<close>

record Z3BindingEnv =
  refs :: "obj \<rightharpoonup> z3"
  support :: "obj list"

record 'sc Z3Transformer =
  env :: Z3BindingEnv
  scopes :: 'sc

text \<open>
  What the compiler uses and the sources do not contain: the registry \<open>_pure_defs\<close>
  (\<open>_pure_defs.functions\<close>, parsed from the module \<open>crosshair\<close>; a dictionary in
  insertion order), name
  resolution (\<open>PureScopeTracker.resolve\<close>, which ends in \<open>ScopeTracker.resolve\<close>), the
  result of calling a member of \<open>Z\<close> (the \<open>z3\<close> library), and the two visitors that
  rest on \<open>inline\<close> and on the scope stack, \<open>visit_Call\<close> and \<open>visit_Lambda\<close>.
\<close>

record 'sc world =
  pure_functions :: "(string \<times> FnInfo) list"
  resolve :: "'sc \<Rightarrow> node \<Rightarrow> error + obj"
  intrinsic_call :: "string \<Rightarrow> obj list \<Rightarrow> error + obj"
  visit_Call :: "node \<Rightarrow> 'sc Z3Transformer \<Rightarrow> error + obj \<times> 'sc Z3Transformer"
  visit_Lambda :: "node \<Rightarrow> 'sc Z3Transformer \<Rightarrow> error + obj \<times> 'sc Z3Transformer"

text \<open>\<open>ModuleInfo.get_fn\<close> and \<open>fn_for_op\<close>.\<close>

definition get_fn :: "'sc world \<Rightarrow> string \<Rightarrow> error + FnInfo" where
  "get_fn W n = (case map_of (pure_functions W) n of None \<Rightarrow> Inl (KeyError n) | Some f \<Rightarrow> Inr f)"

definition fn_for_op :: "'sc world \<Rightarrow> string \<Rightarrow> error + obj" where
  "fn_for_op W optype =
     (case get_fn W (''_op_'' @ optype) of
        Inl e \<Rightarrow> Inl e
      | Inr f \<Rightarrow> (case get_definition f of None \<Rightarrow> Inr ONone | Some d \<Rightarrow> Inr (OFunctionDef d)))"

text \<open>
  \<open>_merge_arg\<close>.  \<open>accumulator == Unk._\<close> builds a \<open>z3\<close> equation whose truth value
  is the structural equality of its two sides.  \<open>Unk.a\<close> and \<open>Z.Concat\<close> take terms of
  sort \<open>Unk\<close> and raise on anything else.
\<close>

fun merge_arg :: "obj \<Rightarrow> obj \<Rightarrow> error + obj" where
  "merge_arg accumulator (OStarred v) =
     (if accumulator = OTerm Unk_empty then Inr v
      else (case (accumulator, v) of
              (OTerm a, OTerm t) \<Rightarrow> Inr (OTerm (Concat a t))
            | _ \<Rightarrow> Inl (Z3Exception ''Concat'')))"
| "merge_arg accumulator arg =
     (case (accumulator, arg) of
        (OTerm a, OTerm t) \<Rightarrow> Inr (OTerm (Unk_a a t))
      | _ \<Rightarrow> Inl (Z3Exception ''a''))"

text \<open>\<open>functools.reduce(_merge_arg, args, acc)\<close>.\<close>

fun merge_args :: "obj \<Rightarrow> obj list \<Rightarrow> error + obj" where
  "merge_args accumulator [] = Inr accumulator"
| "merge_args accumulator (arg # args) =
     (case merge_arg accumulator arg of
        Inl e \<Rightarrow> Inl e
      | Inr acc \<Rightarrow> merge_args acc args)"

text \<open>\<open>z3apply\<close>: a member of \<open>Z\<close> is called, anything else is applied with \<open>App\<close>
  to the merged arguments.\<close>

definition z3apply :: "'sc world \<Rightarrow> obj \<Rightarrow> obj list \<Rightarrow> error + obj" where
  "z3apply W fnval args =
     (case fnval of
        OIntrinsic z \<Rightarrow> intrinsic_call W z args
      | _ \<Rightarrow>
        (case merge_args (OTerm Unk_empty) args of
           Inl e \<Rightarrow> Inl e
         | Inr merged \<Rightarrow>
             (case (fnval, merged) of
                (OTerm f, OTerm m) \<Rightarrow> Inr (OTerm (App f m))
              | _ \<Rightarrow> Inl (Z3Exception ''App''))))"

text \<open>\<open>Z3Transformer.register\<close>.\<close>

definition register :: "obj \<Rightarrow> 'sc Z3Transformer \<Rightarrow> error + obj \<times> 'sc Z3Transformer" where
  "register definition' st =
     (case (case definition' of
              ONode (Name i) \<Rightarrow> Inl (UndefinedIdentifier i)
            | ONode (Arg a ann) \<Rightarrow> Inr (Some a)
            | OFunctionDef d \<Rightarrow> Inr (Some (fd_name d))
            | _ \<Rightarrow> Inr None) of
        Inl e \<Rightarrow> Inl e
      | Inr None \<Rightarrow> Inr (definition', st)
      | Inr (Some n) \<Rightarrow>
          (case refs (env st) definition' of
             Some c \<Rightarrow> Inr (OTerm c, st)
           | None \<Rightarrow>
               Inr (OTerm (Const n),
                    st\<lparr> env := (env st)\<lparr> refs := (refs (env st))(definition' \<mapsto> Const n) \<rparr> \<rparr>)))"

text \<open>\<open>self.register(fn_for_op(name))\<close>.\<close>

definition register_op :: "'sc world \<Rightarrow> string \<Rightarrow> 'sc Z3Transformer \<Rightarrow> error + obj \<times> 'sc Z3Transformer" where
  "register_op W optype st =
     (case fn_for_op W optype of Inl e \<Rightarrow> Inl e | Inr d \<Rightarrow> register d st)"

text \<open>\<open>_z3_name_constants[node.value]\<close>.\<close>

fun name_constant :: "bool option \<Rightarrow> obj" where
  "name_constant (Some b) = OTerm (Unk_bool b)"
| "name_constant None = OTerm Unk_none"

text \<open>\<open>self.env.ops\<close>: the named tuple has no field \<open>ops\<close>, and nothing in the program
  sets such an attribute.\<close>

definition env_ops :: "Z3BindingEnv \<Rightarrow> error + obj list" where
  "env_ops e = Inl (AttributeError ''ops'')"

text \<open>The function \<open>add\<close> local to \<open>visit_Compare\<close>.\<close>

definition compare_add :: "'sc world \<Rightarrow> obj \<Rightarrow> obj \<Rightarrow> 'sc Z3Transformer \<Rightarrow> error + obj \<times> 'sc Z3Transformer" where
  "compare_add W expr' clause st =
     (if expr' = ONone then Inr (clause, st)
      else (case register_op W ''And'' st of
              Inl e \<Rightarrow> Inl e
            | Inr (z3and, st1) \<Rightarrow>
                (case z3apply W z3and [clause, expr'] of
                   Inl e \<Rightarrow> Inl e
                 | Inr r \<Rightarrow> Inr (r, st1))))"

text \<open>The binary fold \<open>functools.reduce(lambda a, b: z3apply(z3fn, (a, b)), args)\<close> of
  \<open>visit_BoolOp\<close>; without an initial value it raises on the empty list.\<close>

fun reduce_apply :: "'sc world \<Rightarrow> obj \<Rightarrow> obj \<Rightarrow> obj list \<Rightarrow> error + obj" where
  "reduce_apply W z3fn a [] = Inr a"
| "reduce_apply W z3fn a (b # bs) =
     (case z3apply W z3fn [a, b] of
        Inl e \<Rightarrow> Inl e
      | Inr r \<Rightarrow> reduce_apply W z3fn r bs)"

lemma size_list_map_snd_zip: "size_list f (map snd (zip xs ys)) \<le> size_list f ys"
  by (induction xs ys rule: list_induct2') auto

lemma size_list_butlast: "size_list f (butlast xs) \<le> size_list f xs"
  by (induction xs) auto

lemma size_last: "xs \<noteq> [] \<Longrightarrow> f (last xs) < size_list f xs"
  by (induction xs) auto

lemma size_list_rev: "size_list f (rev xs) = size_list f xs"
  by (induction xs) auto

lemma size_list_snd_zip: "size_list (\<lambda>x. f (snd x)) (zip xs ys) \<le> size_list f ys"
  by (induction xs ys rule: list_induct2') auto

lemma size_list_compare_pairs:
  "size_list (\<lambda>x. f (snd x)) (rev (zip xs (butlast ys))) \<le> size_list f ys"
proof -
  have "size_list (\<lambda>x. f (snd x)) (rev (zip xs (butlast ys)))
      = size_list (\<lambda>x. f (snd x)) (zip xs (butlast ys))"
    by (rule size_list_rev)
  also have "\<dots> \<le> size_list f (butlast ys)" by (rule size_list_snd_zip)
  also have "\<dots> \<le> size_list f ys" by (rule size_list_butlast)
  finally show ?thesis .
qed

text \<open>
  \<open>Z3Transformer.visit\<close> dispatches on the class of the node to the \<open>visit_\<close>\<^emph>\<open>Class\<close>
  method, and to \<open>generic_visit\<close>, which raises, when there is none.  \<open>visit_each\<close> is a
  list comprehension \<open>[self.visit(v) for v in vs]\<close>; \<open>visit_optional\<close> is \<open>self.visit\<close> of a
  field that may hold \<open>None\<close>; \<open>compare_loop\<close> is the \<open>for\<close> loop of \<open>visit_Compare\<close>, run
  on the reversed list of pairs, with the loop variables \<open>ret\<close> and \<open>lastval\<close>.
  The transformer state is passed in and returned.
\<close>

function (sequential)
  visit :: "'sc world \<Rightarrow> node \<Rightarrow> 'sc Z3Transformer \<Rightarrow> error + obj \<times> 'sc Z3Transformer"
  and visit_each ::
    "'sc world \<Rightarrow> node list \<Rightarrow> 'sc Z3Transformer \<Rightarrow> error + obj list \<times> 'sc Z3Transformer"
  and visit_optional ::
    "'sc world \<Rightarrow> node option \<Rightarrow> 'sc Z3Transformer \<Rightarrow> error + obj \<times> 'sc Z3Transformer"
  and compare_loop ::
    "'sc world \<Rightarrow> (node \<times> node) list \<Rightarrow> obj \<Rightarrow> obj \<Rightarrow> 'sc Z3Transformer \<Rightarrow>
       error + (obj \<times> obj) \<times> 'sc Z3Transformer"
  and handle_subscript ::
    "'sc world \<Rightarrow> obj \<Rightarrow> node \<Rightarrow> 'sc Z3Transformer \<Rightarrow> error + obj \<times> 'sc Z3Transformer"
where
  "visit W (Subscript v sl) st =
     (case visit W v st of
        Inl e \<Rightarrow> Inl e
      | Inr (value, st1) \<Rightarrow> handle_subscript W value sl st1)"
| "visit W (NameConstant c) st = Inr (name_constant c, st)"
| "visit W (Name i) st =
     (case resolve W (scopes st) (Name i) of
        Inl e \<Rightarrow> Inl e
      | Inr d \<Rightarrow> register d st)"
| "visit W (Starred v) st =
     (case visit W v st of
        Inl e \<Rightarrow> Inl e
      | Inr (x, st1) \<Rightarrow> Inr (OStarred x, st1))"
| "visit W (BinOp l op r) st =
     (case register_op W (type_name (type_of op)) st of
        Inl e \<Rightarrow> Inl e
      | Inr (z3fn, st1) \<Rightarrow>
          (case visit W l st1 of
             Inl e \<Rightarrow> Inl e
           | Inr (left, st2) \<Rightarrow>
               (case visit W r st2 of
                  Inl e \<Rightarrow> Inl e
                | Inr (right, st3) \<Rightarrow>
                    (case z3apply W z3fn [left, right] of
                       Inl e \<Rightarrow> Inl e
                     | Inr res \<Rightarrow> Inr (res, st3)))))"
| "visit W (UnaryOp op v) st =
     (case register_op W (type_name (type_of op)) st of
        Inl e \<Rightarrow> Inl e
      | Inr (z3fn, st1) \<Rightarrow>
          (case visit W v st1 of
             Inl e \<Rightarrow> Inl e
           | Inr (val, st2) \<Rightarrow>
               (case z3apply W z3fn [val] of
                  Inl e \<Rightarrow> Inl e
                | Inr res \<Rightarrow> Inr (res, st2))))"
| "visit W (BoolOp op vs) st =
     (case register_op W (type_name (type_of op)) st of
        Inl e \<Rightarrow> Inl e
      | Inr (z3fn, st1) \<Rightarrow>
          (case visit_each W vs st1 of
             Inl e \<Rightarrow> Inl e
           | Inr (args, st2) \<Rightarrow>
               (case args of
                  [] \<Rightarrow> Inl TypeError
                | a # rest \<Rightarrow>
                    (case reduce_apply W z3fn a rest of
                       Inl e \<Rightarrow> Inl e
                     | Inr res \<Rightarrow> Inr (res, st2)))))"
| "visit W (Compare left ops comparators) st =
     (if comparators = [] then Inl IndexError
      else
        (case visit W (last comparators) st of
           Inl e \<Rightarrow> Inl e
         | Inr (lastval, st1) \<Rightarrow>
             (case compare_loop W (rev (zip (tl ops) (butlast comparators))) ONone lastval st1 of
                Inl e \<Rightarrow> Inl e
              | Inr ((ret, lastval'), st2) \<Rightarrow>
                  if ops = [] then Inl IndexError
                  else
                    (case register_op W (type_name (type_of (hd ops))) st2 of
                       Inl e \<Rightarrow> Inl e
                     | Inr (z3fn, st3) \<Rightarrow>
                         (case visit W left st3 of
                            Inl e \<Rightarrow> Inl e
                          | Inr (l, st4) \<Rightarrow>
                              (case z3apply W z3fn [l, lastval'] of
                                 Inl e \<Rightarrow> Inl e
                               | Inr clause \<Rightarrow> compare_add W ret clause st4))))))"
| "visit W (Num n) st = Inr (OTerm (Unk_int n), st)"
| "visit W (Tuple es ctx) st =
     (if ctx \<noteq> Load then Inl PlainException
      else
        (case visit_each W es st of
           Inl e \<Rightarrow> Inl e
         | Inr (params, st1) \<Rightarrow>
             (case merge_args (OTerm Unk_empty) params of
                Inl e \<Rightarrow> Inl e
              | Inr res \<Rightarrow> Inr (res, st1))))"
| "visit W (Call f args kws) st = visit_Call W (Call f args kws) st"
| "visit W (Lambda as b) st = visit_Lambda W (Lambda as b) st"
| "visit W node st = Inl (UnhandledTransformation (type_of node))"
| "visit_each W [] st = Inr ([], st)"
| "visit_each W (v # vs) st =
     (case visit W v st of
        Inl e \<Rightarrow> Inl e
      | Inr (x, st1) \<Rightarrow>
          (case visit_each W vs st1 of
             Inl e \<Rightarrow> Inl e
           | Inr (xs, st2) \<Rightarrow> Inr (x # xs, st2)))"
| "visit_optional W None st = Inl (UnhandledTransformation (TOther ''NoneType''))"
| "visit_optional W (Some n) st = visit W n st"
| "compare_loop W [] ret lastval st = Inr ((ret, lastval), st)"
| "compare_loop W ((op, left) # pairs) ret lastval st =
     (case register_op W (type_name (type_of op)) st of
        Inl e \<Rightarrow> Inl e
      | Inr (z3fn, st1) \<Rightarrow>
          (case visit W left st1 of
             Inl e \<Rightarrow> Inl e
           | Inr (l, st2) \<Rightarrow>
               (case z3apply W z3fn [l, lastval] of
                  Inl e \<Rightarrow> Inl e
                | Inr clause \<Rightarrow>
                    (case compare_add W ret clause st2 of
                       Inl e \<Rightarrow> Inl e
                     | Inr (ret', st3) \<Rightarrow> compare_loop W pairs ret' l st3))))"
| "handle_subscript W value (Index v) st =
     (case env_ops (env st) of
        Inl e \<Rightarrow> Inl e
      | Inr ops \<Rightarrow>
          (case fn_for_op W ''Get'' of
             Inl e \<Rightarrow> Inl e
           | Inr f \<Rightarrow>
               (case visit W v st of
                  Inl e \<Rightarrow> Inl e
                | Inr (i, st1) \<Rightarrow>
                    (case z3apply W f [value, i] of
                       Inl e \<Rightarrow> Inl e
                     | Inr res \<Rightarrow> Inr (res, st1)))))"
| "handle_subscript W value (Slice lower upper step) st =
     (if step = None then
        (case env_ops (env st) of
           Inl e \<Rightarrow> Inl e
         | Inr ops \<Rightarrow>
             (case fn_for_op W ''SubList'' of
                Inl e \<Rightarrow> Inl e
              | Inr f \<Rightarrow>
                  (case visit_optional W lower st of
                     Inl e \<Rightarrow> Inl e
                   | Inr (lo, st1) \<Rightarrow>
                       (case visit_optional W upper st1 of
                          Inl e \<Rightarrow> Inl e
                        | Inr (up, st2) \<Rightarrow>
                            (case z3apply W f [value, lo, up] of
                               Inl e \<Rightarrow> Inl e
                             | Inr res \<Rightarrow> Inr (res, st2))))))
      else
        (case env_ops (env st) of
           Inl e \<Rightarrow> Inl e
         | Inr ops \<Rightarrow>
             (case fn_for_op W ''SteppedSubList'' of
                Inl e \<Rightarrow> Inl e
              | Inr f \<Rightarrow>
                  (case visit_optional W lower st of
                     Inl e \<Rightarrow> Inl e
                   | Inr (lo, st1) \<Rightarrow>
                       (case visit_optional W upper st1 of
                          Inl e \<Rightarrow> Inl e
                        | Inr (up, st2) \<Rightarrow>
                            (case visit_optional W step st2 of
                               Inl e \<Rightarrow> Inl e
                             | Inr (sp, st3) \<Rightarrow>
                                 (case z3apply W f [value, lo, up, sp] of
                                    Inl e \<Rightarrow> Inl e
                                  | Inr res \<Rightarrow> Inr (res, st3))))))))"
| "handle_subscript W value (ExtSlice dims) st = Inl (NameError ''index'')"
| "handle_subscript W value subscript st = Inr (ONone, st)"
  by pat_completeness auto
termination
  apply (relation "measure (\<lambda>x. case x of
        Inl (Inl (W, n, st)) \<Rightarrow> 3 * size n + 2
      | Inl (Inr (W, ns, st)) \<Rightarrow> 3 * size_list size ns + 1
      | Inr (Inl (W, n, st)) \<Rightarrow> 3 * size_option size n + 1
      | Inr (Inr (Inl (W, pairs, ret, lastval, st))) \<Rightarrow>
          3 * size_list size (map snd pairs) + 1
      | Inr (Inr (Inr (W, value, n, st))) \<Rightarrow> 3 * size n + 2)")
  apply (simp_all add: comp_def)
  subgoal for left ops comparators
    using size_last [of comparators size] by linarith
  subgoal for W left ops comparators
    using size_list_compare_pairs [of size "tl ops" comparators] by linarith
  done

text \<open>
  The chained comparison as the specification words it: \<open>left op right \<dots>\<close> is the
  comparison of \<open>left\<close> and \<open>right\<close>, in conjunction with the chain that starts at
  \<open>right\<close> when there are more operators; the chain to the right is built first, and
  the compiled \<open>right\<close> operand is handed on, not compiled again.  The result is the
  conjunction together with the compiled \<open>left\<close>.
\<close>

fun chained_comparison ::
  "'sc world \<Rightarrow> node \<Rightarrow> (node \<times> node) list \<Rightarrow> 'sc Z3Transformer \<Rightarrow>
     error + (obj \<times> obj) \<times> 'sc Z3Transformer"
where
  "chained_comparison W left [] st = Inl IndexError"
| "chained_comparison W left ((op, right) # rest) st =
     (case (if rest = [] then
              (case visit W right st of
                 Inl e \<Rightarrow> Inl e
               | Inr (r, st1) \<Rightarrow> Inr ((ONone, r), st1))
            else chained_comparison W right rest st) of
        Inl e \<Rightarrow> Inl e
      | Inr ((others, r), st1) \<Rightarrow>
          (case register_op W (type_name (type_of op)) st1 of
             Inl e \<Rightarrow> Inl e
           | Inr (z3fn, st2) \<Rightarrow>
               (case visit W left st2 of
                  Inl e \<Rightarrow> Inl e
                | Inr (l, st3) \<Rightarrow>
                    (case z3apply W z3fn [l, r] of
                       Inl e \<Rightarrow> Inl e
                     | Inr clause \<Rightarrow>
                         (case compare_add W others clause st3 of
                            Inl e \<Rightarrow> Inl e
                          | Inr (res, st4) \<Rightarrow> Inr ((res, l), st4))))))"

text \<open>The registry entries the doctest of \<open>to_z3\<close> shows, in a world without calls and
  lambdas, and a transformer on a new \<open>Z3BindingEnv()\<close>.\<close>

definition op_def :: "string \<Rightarrow> FunctionDef" where
  "op_def n = \<lparr> fd_name = n, fd_args = [Arg ''a'' None, Arg ''b'' None], fd_body = [],
               fd_decorator_list = [], fd_returns = None \<rparr>"

definition op_info :: "string \<Rightarrow> FnInfo" where
  "op_info n = (FnInfo_init n ''crosshair'')\<lparr> fi_definition := Some (op_def n) \<rparr>"

definition doctest_world :: "unit world" where
  "doctest_world =
     \<lparr> pure_functions =
         [(''_op_And'', op_info ''_op_And''), (''_op_LtE'', op_info ''_op_LtE''),
          (''_op_Lt'', op_info ''_op_Lt'')],
       resolve = (\<lambda>sc n. Inr (ONode n)),
       intrinsic_call = (\<lambda>z args. Inl (Z3Exception z)),
       visit_Call = (\<lambda>n st. Inl PlainException),
       visit_Lambda = (\<lambda>n st. Inl PlainException) \<rparr>"

definition new_transformer :: "unit Z3Transformer" where
  "new_transformer = \<lparr> env = \<lparr> refs = Map.empty, support = [] \<rparr>, scopes = () \<rparr>"

section \<open>Knowledge expansion\<close>

text \<open>
  The loop of \<open>prove_assertion_fn\<close> (lines 1030 to 1053).  What it calls and the
  sources do not decide: \<open>make_statement(assertion, env, scopes)\<close>, which compiles an
  assertion with \<open>assertion_fn_to_z3\<close> (on the helpers of \<open>asthelpers\<close> and on \<open>z3\<close>) and so
  may add references and support formulas to \<open>env\<close>, may return \<open>None\<close> and may raise;
  \<open>get_scope_for_def\<close>; the statement \<open>make_statement(expr)\<close> of a bare formula; and the
  formula \<open>Unk.is_func(c)\<close>.  They extend the world of the compiler.
\<close>

record ('sc, 'stmt) prover_world = "'sc world" +
  make_statement_fn :: "FunctionDef \<Rightarrow> Z3BindingEnv \<Rightarrow> 'sc \<Rightarrow> error + 'stmt option \<times> Z3BindingEnv"
  make_statement_expr :: "obj \<Rightarrow> 'stmt"
  get_scope_for_def :: "FunctionDef option \<Rightarrow> error + 'sc"
  is_func :: "z3 \<Rightarrow> obj"

text \<open>
  The variables of the loop: \<open>baseline\<close>, \<open>env\<close>, \<open>handled\<close>, and two observations of
  its control flow: how many times the body has run, and whether the \<open>break\<close> (with its
  message ``Completed knowledge expansion'') was reached.
\<close>

record 'stmt expansion =
  baseline :: "'stmt option list"
  x_env :: Z3BindingEnv
  handled :: "obj set"
  iterations :: nat
  completed :: bool

text \<open>The key under which a definition (or \<open>None\<close>) is looked up in \<open>env.refs\<close> and
  kept in \<open>handled\<close>.\<close>

fun def_key :: "FunctionDef option \<Rightarrow> obj" where
  "def_key None = ONone"
| "def_key (Some d) = OFunctionDef d"

text \<open>\<open>for assertion in fninfo.get_assertions(): \<dots>\<close>\<close>

fun add_assertions ::
  "('sc, 'stmt) prover_world \<Rightarrow> FunctionDef list \<Rightarrow> 'stmt option list \<times> Z3BindingEnv \<Rightarrow>
     error + 'stmt option list \<times> Z3BindingEnv"
where
  "add_assertions W [] (b, e) = Inr (b, e)"
| "add_assertions W (assertion # rest) (b, e) =
     (case get_scope_for_def W (Some assertion) of
        Inl err \<Rightarrow> Inl err
      | Inr scopes' \<Rightarrow>
          (case make_statement_fn W assertion e scopes' of
             Inl err \<Rightarrow> Inl err
           | Inr (stmt, e1) \<Rightarrow> add_assertions W rest (b @ [stmt], e1)))"

text \<open>The body of \<open>if fn_def in borderset:\<close> for one \<open>fninfo\<close>.\<close>

definition expand_function ::
  "('sc, 'stmt) prover_world \<Rightarrow> FnInfo \<Rightarrow> 'stmt option list \<times> Z3BindingEnv \<Rightarrow>
     error + 'stmt option list \<times> Z3BindingEnv"
where
  "expand_function W fninfo be =
     (case add_assertions W (get_assertions fninfo) be of
        Inl err \<Rightarrow> Inl err
      | Inr (b1, e1) \<Rightarrow>
          (case refs e1 (def_key (get_definition fninfo)) of
             None \<Rightarrow> Inl (KeyError (fi_name fninfo))
           | Some c \<Rightarrow>
               let b2 = b1 @ [Some (make_statement_expr W (is_func W c))]
               in (case fi_definitional_assertion fninfo of
                     None \<Rightarrow> Inr (b2, e1)
                   | Some da \<Rightarrow>
                       (case get_scope_for_def W (get_definition fninfo) of
                          Inl err \<Rightarrow> Inl err
                        | Inr scopes' \<Rightarrow>
                            (case make_statement_fn W da e1 scopes' of
                               Inl err \<Rightarrow> Inl err
                             | Inr (stmt, e2) \<Rightarrow> Inr (b2 @ [stmt], e2))))))"

text \<open>\<open>for name, fninfo in _pure_defs.functions.items(): \<dots>\<close>, with \<open>borderset\<close> as
  computed before the loop and the flag \<open>addedone\<close>.\<close>

fun expand_functions ::
  "('sc, 'stmt) prover_world \<Rightarrow> obj set \<Rightarrow> (string \<times> FnInfo) list \<Rightarrow>
     ('stmt option list \<times> Z3BindingEnv) \<times> obj set \<times> bool \<Rightarrow>
     error + ('stmt option list \<times> Z3BindingEnv) \<times> obj set \<times> bool"
where
  "expand_functions W borderset [] acc = Inr acc"
| "expand_functions W borderset ((name, fninfo) # rest) (be, h, addedone) =
     (if def_key (get_definition fninfo) \<in> borderset then
        (case expand_function W fninfo be of
           Inl err \<Rightarrow> Inl err
         | Inr be1 \<Rightarrow>
             expand_functions W borderset rest
               (be1, insert (def_key (get_definition fninfo)) h, True))
      else expand_functions W borderset rest (be, h, addedone))"

text \<open>One run of the body of \<open>for iter in range(_MAX_DEPTH)\<close>, up to the test of
  \<open>addedone\<close>, whose value is returned.\<close>

definition expansion_round ::
  "('sc, 'stmt) prover_world \<Rightarrow> 'stmt expansion \<Rightarrow> error + 'stmt expansion \<times> bool"
where
  "expansion_round W s =
     (let baseline1 = baseline s @ map (\<lambda>f. Some (make_statement_expr W f)) (support (x_env s));
          env1 = \<lparr> refs = refs (x_env s), support = [] \<rparr>;
          borderset = dom (refs env1) - handled s
      in case expand_functions W borderset (pure_functions W) ((baseline1, env1), handled s, False) of
           Inl err \<Rightarrow> Inl err
         | Inr ((b, e), h, addedone) \<Rightarrow>
             Inr (s\<lparr> baseline := b, x_env := e, handled := h, iterations := Suc (iterations s) \<rparr>,
                  addedone))"

fun expansion_loop ::
  "('sc, 'stmt) prover_world \<Rightarrow> nat \<Rightarrow> 'stmt expansion \<Rightarrow> error + 'stmt expansion"
where
  "expansion_loop W 0 s = Inr s"
| "expansion_loop W (Suc n) s =
     (case expansion_round W s of
        Inl err \<Rightarrow> Inl err
      | Inr (s1, addedone) \<Rightarrow>
          if \<not> addedone then Inr (s1\<lparr> completed := True \<rparr>)
          else expansion_loop W n s1)"

definition MAX_DEPTH :: nat where
  "MAX_DEPTH = 10"

definition knowledge_expansion ::
  "('sc, 'stmt) prover_world \<Rightarrow> 'stmt option list \<Rightarrow> Z3BindingEnv \<Rightarrow> error + 'stmt expansion"
where
  "knowledge_expansion W baseline0 env0 =
     expansion_loop W MAX_DEPTH
       \<lparr> baseline = baseline0, x_env = env0, handled = {}, iterations = 0, completed = False \<rparr>"

text \<open>The keys of the definitions in the registry, and what it means for the
  expansion to have reached the closure: every registered definition that is
  referenced has been handled.\<close>

definition registry_keys :: "('sc, 'stmt) prover_world \<Rightarrow> obj set" where
  "registry_keys W = (\<lambda>(n, fninfo). def_key (get_definition fninfo)) ` set (pure_functions W)"

definition closure_reached :: "('sc, 'stmt) prover_world \<Rightarrow> 'stmt expansion \<Rightarrow> bool" where
  "closure_reached W s =
     (\<forall>k \<in> registry_keys W. k \<in> dom (refs (x_env s)) \<longrightarrow> k \<in> handled s)"

text \<open>The state in which the loop starts, the registered definitions that a state
  refers to and has not handled, and the state reached by a number of rounds each of
  which starts with such a definition at hand.\<close>

definition initial_expansion :: "'stmt option list \<Rightarrow> Z3BindingEnv \<Rightarrow> 'stmt expansion" where
  "initial_expansion baseline0 env0 =
     \<lparr> baseline = baseline0, x_env = env0, handled = {}, iterations = 0, completed = False \<rparr>"

definition unhandled_referenced :: "('sc, 'stmt) prover_world \<Rightarrow> 'stmt expansion \<Rightarrow> obj set" where
  "unhandled_referenced W s = registry_keys W \<inter> (dom (refs (x_env s)) - handled s)"

fun adding_rounds ::
  "('sc, 'stmt) prover_world \<Rightarrow> nat \<Rightarrow> 'stmt expansion \<Rightarrow> 'stmt expansion option"
where
  "adding_rounds W 0 s = Some s"
| "adding_rounds W (Suc j) s =
     (if unhandled_referenced W s = {} then None
      else (case expansion_round W s of
              Inl err \<Rightarrow> None
            | Inr (s1, addedone) \<Rightarrow> adding_rounds W j s1))"

text \<open>
  A registry with two functions, \<open>f\<close> with one assertion and \<open>g\<close>; compiling an
  assertion refers to \<open>g\<close>; the environment refers to \<open>f\<close> at first.  The states after
  the first and the second round, and the state the loop returns.
\<close>

definition chain_prover :: "(unit, string) prover_world" where
  "chain_prover =
     \<lparr> pure_functions =
         [(''f'', (FnInfo_init ''f'' ''crosshair'')
                   \<lparr> fi_assertions := [op_def ''_assert_f''], fi_definition := Some def_one \<rparr>),
          (''g'', (FnInfo_init ''g'' ''crosshair'')\<lparr> fi_definition := Some (op_def ''g'') \<rparr>)],
       resolve = (\<lambda>sc n. Inr (ONode n)),
       intrinsic_call = (\<lambda>z args. Inl (Z3Exception z)),
       visit_Call = (\<lambda>n st. Inl PlainException),
       visit_Lambda = (\<lambda>n st. Inl PlainException),
       make_statement_fn =
         (\<lambda>a e sc. Inr (Some ''axiom'',
                        e\<lparr> refs := (refs e)(OFunctionDef (op_def ''g'') \<mapsto> Const ''g'') \<rparr>)),
       make_statement_expr = (\<lambda>f. ''fact''),
       get_scope_for_def = (\<lambda>d. Inr ()),
       is_func = (\<lambda>c. OOther ''is_func'') \<rparr>"

definition env_f :: Z3BindingEnv where
  "env_f = \<lparr> refs = [OFunctionDef def_one \<mapsto> Const ''f''], support = [] \<rparr>"

definition env_f_g :: Z3BindingEnv where
  "env_f_g =
     \<lparr> refs = [OFunctionDef def_one \<mapsto> Const ''f'', OFunctionDef (op_def ''g'') \<mapsto> Const ''g''],
       support = [] \<rparr>"

definition after_round_one :: "string expansion" where
  "after_round_one =
     \<lparr> baseline = [Some ''axiom'', Some ''fact''], x_env = env_f_g,
       handled = {OFunctionDef def_one}, iterations = 1, completed = False \<rparr>"

definition after_round_two :: "string expansion" where
  "after_round_two =
     \<lparr> baseline = [Some ''axiom'', Some ''fact'', Some ''fact''], x_env = env_f_g,
       handled = {OFunctionDef def_one, OFunctionDef (op_def ''g'')}, iterations = 2,
       completed = False \<rparr>"

definition chain_expanded :: "string expansion" where
  "chain_expanded =
     \<lparr> baseline = [Some ''axiom'', Some ''fact'', Some ''fact''], x_env = env_f_g,
       handled = {OFunctionDef def_one, OFunctionDef (op_def ''g'')}, iterations = 3,
       completed = True \<rparr>"

section \<open>Properties\<close>

subsection \<open>Layered rule lookup\<close>



subsection \<open>Matching\<close>

lemma matches_all_take:
  "matches_all ns ps b = matches_all (take (length ps) ns) ps b"
proof (induction ps arbitrary: ns b)
  case Nil
  then show ?case by (cases ns) simp_all
next
  case (Cons p ps)
  show ?case
  proof (cases ns)
    case Nil
    then show ?thesis by simp
  next
    case (Cons n ns')
    then show ?thesis
      using Cons.IH [of ns'] by (auto split: sum.splits bool.splits prod.splits)
  qed
qed

text \<open>
  C10: for \<open>Module\<close> bodies, \<open>BoolOp\<close> operand lists and plain lists, \<open>matches\<close> sees
  only as many elements of the subject as the pattern has (the rest is cut off by
  \<open>zip\<close>), and a pattern with fewer elements than the subject does match; for a
  \<open>Call\<close>, argument lists of different lengths never match.
\<close>

theorem matches_no_length_check:
  "matches (NList ns) (NList ps) b = matches (NList (take (length ps) ns)) (NList ps) b \<and>
   matches (Module ns) (Module ps) b = matches (Module (take (length ps) ns)) (Module ps) b \<and>
   matches (BoolOp nop ns) (BoolOp pop ps) b
     = matches (BoolOp nop (take (length ps) ns)) (BoolOp pop ps) b \<and>
   (\<exists>ns ps b'. length ps < length ns \<and> matches (NList ns) (NList ps) Map.empty = Inr (True, b')) \<and>
   (\<exists>ns ps b'. length ps < length ns \<and> matches (Module ns) (Module ps) Map.empty = Inr (True, b')) \<and>
   (\<exists>op ns ps b'. length ps < length ns \<and>
       matches (BoolOp op ns) (BoolOp op ps) Map.empty = Inr (True, b')) \<and>
   (length nargs \<noteq> length pargs \<longrightarrow>
      (\<forall>b'. matches (Call nf nargs nkw) (Call pf pargs pkw) b \<noteq> Inr (True, b')))"
proof (intro conjI)
  show "matches (NList ns) (NList ps) b = matches (NList (take (length ps) ns)) (NList ps) b"
    by (simp add: matches_all_take [of ns ps b, symmetric])
  show "matches (Module ns) (Module ps) b = matches (Module (take (length ps) ns)) (Module ps) b"
    by (simp add: matches_all_take [of ns ps b, symmetric])
  show "matches (BoolOp nop ns) (BoolOp pop ps) b
     = matches (BoolOp nop (take (length ps) ns)) (BoolOp pop ps) b"
    by (simp add: matches_all_take [of ns ps b, symmetric])
  have "matches (NList [Num 1, Num 2]) (NList [Num 1]) Map.empty = Inr (True, Map.empty)"
    by simp
  then show "\<exists>ns ps b'. length ps < length ns \<and>
      matches (NList ns) (NList ps) Map.empty = Inr (True, b')"
    by (intro exI [of _ "[Num 1, Num 2]"] exI [of _ "[Num 1]"] exI [of _ Map.empty]) simp
  have "matches (Module [Expr (Num 1), Expr (Num 2)]) (Module [Expr (Num 1)]) Map.empty
      = Inr (True, Map.empty)"
    by simp
  then show "\<exists>ns ps b'. length ps < length ns \<and>
      matches (Module ns) (Module ps) Map.empty = Inr (True, b')"
    by (intro exI [of _ "[Expr (Num 1), Expr (Num 2)]"] exI [of _ "[Expr (Num 1)]"]
          exI [of _ Map.empty]) simp
  have "matches (BoolOp (Other ''And'' []) [Name ''a'', Name ''b''])
      (BoolOp (Other ''And'' []) [Name ''a'']) Map.empty = Inr (True, Map.empty)"
    by simp
  then show "\<exists>op ns ps b'. length ps < length ns \<and>
      matches (BoolOp op ns) (BoolOp op ps) Map.empty = Inr (True, b')"
    by (intro exI [of _ "Other ''And'' []"] exI [of _ "[Name ''a'', Name ''b'']"]
          exI [of _ "[Name ''a'']"] exI [of _ Map.empty]) simp
  show "length nargs \<noteq> length pargs \<longrightarrow>
      (\<forall>b'. matches (Call nf nargs nkw) (Call pf pargs pkw) b \<noteq> Inr (True, b'))"
    by (auto split: sum.splits bool.splits prod.splits)
qed

theorem matches_no_length_check_witness:
  "matches (BoolOp (Other ''And'' []) [Name ''a'', Name ''b''])
      (BoolOp (Other ''And'' []) [Name ''a'']) Map.empty = Inr (True, Map.empty) \<and>
   length [Name ''a'', Name ''b''] \<noteq> length [Name ''a''] \<and>
   matches (Call (Name ''f'') [Name ''a'', Name ''b''] []) (Call (Name ''f'') [Name ''a''] [])
      Map.empty \<noteq> Inr (True, Map.empty)"
  using matches_no_length_check [of "[Name ''a'', Name ''b'']" "[Name ''a'']" Map.empty
      "Other ''And'' []" "Other ''And'' []" "[Name ''a'', Name ''b'']" "[Name ''a'']"
      "Name ''f''" "[]" "Name ''f''" "[]"]
  by simp

text \<open>
  C9: a failed match does not always leave the bindings empty.  Matching \<open>a + b\<close>
  against the pattern \<open>$X + c\<close> binds \<open>X\<close>, then fails on the name \<open>c\<close>, and returns
  with \<open>X\<close> still bound: only the class test of \<open>matches\<close> clears the dictionary, the
  entry of \<open>_MATCHER\<close> for \<open>Name\<close> does not.
\<close>

theorem matches_failure_keeps_bindings:
  "matches (BinOp (Name ''a'') (Other ''Add'' []) (Name ''b''))
      (BinOp (Name ''$X'') (Other ''Add'' []) (Name ''c'')) Map.empty
     = Inr (False, [''X'' \<mapsto> Name ''a'']) \<and>
   [''X'' \<mapsto> Name ''a''] \<noteq> Map.empty"
  by simp

subsection \<open>Definition registry\<close>

lemma set_definition_twice:
  "fi_definition self = Some d \<Longrightarrow>
     set_definition H self g d' = (Some (MultiplyDefined (fi_name self)), self, g)"
  by (simp add: set_definition_def)

lemma set_definition_first:
  "fi_definition self = None \<Longrightarrow> fi_definition (fst (snd (set_definition H self g d))) = Some d"
  by (simp add: set_definition_def Let_def split: sum.splits option.splits)

lemma set_definition_name:
  "fi_name (fst (snd (set_definition H self g d))) = fi_name self"
  by (simp add: set_definition_def Let_def split: sum.splits option.splits)

lemma run_command_keeps:
  "fi_definition (fst st) = Some d \<Longrightarrow> fi_definition (fst (run_command H c st)) = Some d"
  by (cases c; cases st) (simp_all add: set_definition_def add_assertion_def)

lemma run_commands_keeps:
  "fi_definition (fst st) = Some d \<Longrightarrow> fi_definition (fst (run_commands H cs st)) = Some d"
  by (induction cs arbitrary: st) (simp_all add: run_command_keeps)

text \<open>
  C5: on a \<open>FnInfo\<close> that has a definition, \<open>set_definition\<close> raises ``multiply defined
  function'' and changes nothing, and no sequence of \<open>set_definition\<close> and
  \<open>add_assertion\<close> calls replaces the definition; on a \<open>FnInfo\<close> without one, the first
  call stores the definition and from then on the same holds.
\<close>

theorem set_definition_once:
  "(fi_definition self = Some d \<longrightarrow>
      set_definition H self g d' = (Some (MultiplyDefined (fi_name self)), self, g) \<and>
      fi_definition (fst (run_commands H cs (self, g))) = Some d) \<and>
   (fi_definition self = None \<longrightarrow>
      (case set_definition H self g d of (e1, self1, g1) \<Rightarrow>
         fi_definition self1 = Some d \<and>
         set_definition H self1 g1 d' = (Some (MultiplyDefined (fi_name self)), self1, g1) \<and>
         fi_definition (fst (run_commands H cs (self1, g1))) = Some d))"
proof (intro conjI impI)
  assume a: "fi_definition self = Some d"
  show "set_definition H self g d' = (Some (MultiplyDefined (fi_name self)), self, g)"
    using a by (rule set_definition_twice)
  show "fi_definition (fst (run_commands H cs (self, g))) = Some d"
    using a by (simp add: run_commands_keeps)
next
  assume a: "fi_definition self = None"
  obtain e1 self1 g1 where r: "set_definition H self g d = (e1, self1, g1)"
    by (cases "set_definition H self g d") auto
  have d1: "fi_definition self1 = Some d"
    using set_definition_first [OF a, of H g d] r by simp
  have n1: "fi_name self1 = fi_name self"
    using set_definition_name [of H self g d] r by simp
  have "set_definition H self1 g1 d' = (Some (MultiplyDefined (fi_name self)), self1, g1)"
    using set_definition_twice [OF d1, of H g1 d'] n1 by simp
  moreover have "fi_definition (fst (run_commands H cs (self1, g1))) = Some d"
    using d1 by (simp add: run_commands_keeps)
  ultimately show "case set_definition H self g d of (e1, self1, g1) \<Rightarrow>
         fi_definition self1 = Some d \<and>
         set_definition H self1 g1 d' = (Some (MultiplyDefined (fi_name self)), self1, g1) \<and>
         fi_definition (fst (run_commands H cs (self1, g1))) = Some d"
    using r d1 by simp
qed

theorem set_definition_once_witness:
  "fi_definition (FnInfo_init ''f'' ''crosshair'') = None \<and>
   fi_definition (fst (snd (set_definition plain_helpers (FnInfo_init ''f'' ''crosshair'') Map.empty def_one)))
     = Some def_one \<and>
   fst (set_definition plain_helpers
          (fst (snd (set_definition plain_helpers (FnInfo_init ''f'' ''crosshair'') Map.empty def_one)))
          (snd (snd (set_definition plain_helpers (FnInfo_init ''f'' ''crosshair'') Map.empty def_one)))
          def_two)
     = Some (MultiplyDefined ''f'') \<and>
   fi_definition (fst (run_commands plain_helpers [SetDefinition def_two, AddAssertion def_two]
      (snd (set_definition plain_helpers (FnInfo_init ''f'' ''crosshair'') Map.empty def_one))))
     = Some def_one \<and> def_one \<noteq> def_two"
  using set_definition_once [of "FnInfo_init ''f'' ''crosshair''" def_one plain_helpers Map.empty def_two
      "[SetDefinition def_two, AddAssertion def_two]"]
  by (simp add: FnInfo_init_def set_definition_def fn_annotation_assertion_def plain_helpers_def
        def_one_def def_two_def add_assertion_def Let_def)

subsection \<open>Solver adapter\<close>

lemma solver_assertions_formulas:
  "map formula_of (solver_assertions s r xs c) = map expr xs @ [z3_Not s c]"
proof -
  have "map (\<lambda>x. expr (snd x)) (enumerate 0 xs) = map expr xs"
    using map_map [of expr snd "enumerate 0 xs"] by (simp add: comp_def)
  then show ?thesis
    by (simp add: solver_assertions_def stmt_index_def comp_def split_def)
qed


lemma filter_take_none: "\<forall>a\<in>set ys. \<not> P a \<Longrightarrow> filter P (take n ys) = []"
  by (auto simp: filter_empty_conv dest: in_set_takeD)

lemma filter_take_all: "\<forall>a\<in>set ys. P a \<Longrightarrow> filter P (take n ys) = take n ys"
  by (auto simp: filter_id_conv dest: in_set_takeD)

lemma sel_required:
  "filter (\<lambda>a. score a = None) (select_assumptions xs) = filter (\<lambda>a. score a = None) xs"
  unfolding select_assumptions_def Let_def
  by (simp add: filter_take_none)

lemma sel_scored:
  "filter (\<lambda>a. score a \<noteq> None) (select_assumptions xs)
     = take 120 (sort_key (\<lambda>a. the (score a)) (filter (\<lambda>a. score a \<noteq> None) xs))"
proof -
  have "filter (\<lambda>a. score a \<noteq> None)
          (take 120 (sort_key (\<lambda>a. the (score a)) (filter (\<lambda>a. score a \<noteq> None) xs)))
        = take 120 (sort_key (\<lambda>a. the (score a)) (filter (\<lambda>a. score a \<noteq> None) xs))"
    by (rule filter_take_all) simp
  then show ?thesis
    unfolding select_assumptions_def Let_def by (auto simp: filter_empty_conv)
qed

lemma sorted_take_drop_le:
  assumes "sorted (map f ys)" "b \<in> set (take n ys)" "a \<in> set (drop n ys)"
  shows "f b \<le> f a"
proof -
  have "sorted (map f (take n ys) @ map f (drop n ys))"
    using assms(1) by (simp flip: map_append)
  then show ?thesis using assms(2,3) by (auto simp: sorted_append)
qed

lemma sel_mset:
  "mset (select_assumptions xs) + mset (drop 120 (sort_key (\<lambda>a. the (score a)) (filter (\<lambda>a. score a \<noteq> None) xs)))
    = mset xs"
proof -
  let ?ys = "sort_key (\<lambda>a. the (score a)) (filter (\<lambda>a. score a \<noteq> None) xs)"
  have "mset (take 120 ?ys) + mset (drop 120 ?ys) = mset ?ys"
    by (simp flip: mset_append)
  also have "\<dots> = filter_mset (\<lambda>a. score a \<noteq> None) (mset xs)" by simp
  finally have "mset (take 120 ?ys) + mset (drop 120 ?ys) = filter_mset (\<lambda>a. score a \<noteq> None) (mset xs)" .
  moreover have "mset (filter (\<lambda>a. score a = None) xs) + filter_mset (\<lambda>a. score a \<noteq> None) (mset xs) = mset xs"
    by (induction xs) simp_all
  ultimately show ?thesis
    by (simp add: select_assumptions_def Let_def add.assoc)
qed

lemma solve_by_check:
  assumes "L = solver_assertions s make_repro_case (select_assumptions assumptions) conclusion"
    and "idx = stmt_index make_repro_case (select_assumptions assumptions)"
  shows "check s L = sat \<Longrightarrow>
           solve s make_repro_case assumptions conclusion = Inr (Some False, report idx [])"
    and "check s L = unknown \<Longrightarrow>
           solve s make_repro_case assumptions conclusion = Inr (None, report idx [])"
    and "check s L = CheckRaises ''canceled'' \<Longrightarrow>
           solve s make_repro_case assumptions conclusion = Inr (None, report idx [])"
    and "check s L = CheckRaises v \<Longrightarrow> v \<noteq> ''canceled'' \<Longrightarrow>
           solve s make_repro_case assumptions conclusion = Inl (Z3Exception v)"
    and "check s L = unsat \<Longrightarrow> make_repro_case \<Longrightarrow>
           solve s make_repro_case assumptions conclusion = Inr (Some True, report idx [])"
    and "check s L = unsat \<Longrightarrow> \<not> make_repro_case \<Longrightarrow> ''conclusion'' \<in> set (unsat_core s L) \<Longrightarrow>
           print_core idx (unsat_core s L) = Inr () \<Longrightarrow>
           solve s make_repro_case assumptions conclusion
             = Inr (Some True, report idx (unsat_core s L))"
  using assms by (simp_all add: solve_def Let_def)


text \<open>
  C3: \<open>solve\<close> consults the solver on exactly one list of assertions, \<open>L\<close>, and what
  the solver answers for \<open>L\<close> decides what \<open>solve\<close> returns.  The formulas of \<open>L\<close> are
  those of every statement without a score, as often and in the order it was passed,
  then those of the first 120 of the scored statements sorted by ascending score (all
  of them when there are at most 120), then the negated conclusion.  Nothing is
  asserted that was not passed, and whatever was passed but not asserted has a score,
  one no smaller than that of any asserted scored statement.
\<close>

theorem solve_asserts_required_and_top_scored:
  "L = solver_assertions s make_repro_case (select_assumptions assumptions) conclusion \<Longrightarrow>
   idx = stmt_index make_repro_case (select_assumptions assumptions) \<Longrightarrow>
   map formula_of L
     = map expr (filter (\<lambda>a. score a = None) assumptions)
       @ map expr (take 120 (sort_key (\<lambda>a. the (score a)) (filter (\<lambda>a. score a \<noteq> None) assumptions)))
       @ [z3_Not s conclusion] \<and>
   (check s L = sat \<longrightarrow>
      solve s make_repro_case assumptions conclusion = Inr (Some False, report idx [])) \<and>
   (check s L = unknown \<longrightarrow>
      solve s make_repro_case assumptions conclusion = Inr (None, report idx [])) \<and>
   (check s L = CheckRaises ''canceled'' \<longrightarrow>
      solve s make_repro_case assumptions conclusion = Inr (None, report idx [])) \<and>
   (\<forall>v. check s L = CheckRaises v \<and> v \<noteq> ''canceled'' \<longrightarrow>
      solve s make_repro_case assumptions conclusion = Inl (Z3Exception v)) \<and>
   (check s L = unsat \<and> make_repro_case \<longrightarrow>
      solve s make_repro_case assumptions conclusion = Inr (Some True, report idx [])) \<and>
   (check s L = unsat \<and> \<not> make_repro_case \<and> ''conclusion'' \<in> set (unsat_core s L) \<and>
      print_core idx (unsat_core s L) = Inr () \<longrightarrow>
      solve s make_repro_case assumptions conclusion = Inr (Some True, report idx (unsat_core s L))) \<and>
   map formula_of L = map expr (select_assumptions assumptions) @ [z3_Not s conclusion] \<and>
   filter (\<lambda>a. score a = None) (select_assumptions assumptions)
     = filter (\<lambda>a. score a = None) assumptions \<and>
   filter (\<lambda>a. score a \<noteq> None) (select_assumptions assumptions)
     = take 120 (sort_key (\<lambda>a. the (score a)) (filter (\<lambda>a. score a \<noteq> None) assumptions)) \<and>
   sorted (map (\<lambda>a. the (score a)) (filter (\<lambda>a. score a \<noteq> None) (select_assumptions assumptions))) \<and>
   length (filter (\<lambda>a. score a \<noteq> None) (select_assumptions assumptions))
     = min 120 (length (filter (\<lambda>a. score a \<noteq> None) assumptions)) \<and>
   mset (select_assumptions assumptions) \<subseteq># mset assumptions \<and>
   (\<forall>a \<in># mset assumptions - mset (select_assumptions assumptions).
      score a \<noteq> None \<and>
      (\<forall>b \<in> set (select_assumptions assumptions).
         score b \<noteq> None \<longrightarrow> the (score b) \<le> the (score a)))"
proof -
  assume L: "L = solver_assertions s make_repro_case (select_assumptions assumptions) conclusion"
    and idx: "idx = stmt_index make_repro_case (select_assumptions assumptions)"
  let ?scored = "filter (\<lambda>a. score a \<noteq> None) assumptions"
  let ?ys = "sort_key (\<lambda>a. the (score a)) ?scored"
  let ?sel = "select_assumptions assumptions"
  have srt: "sorted (map (\<lambda>a. the (score a)) ?ys)" by simp
  have m: "mset ?sel + mset (drop 120 ?ys) = mset assumptions" by (rule sel_mset)
  have dropped: "mset assumptions - mset ?sel = mset (drop 120 ?ys)"
    using m by (metis add_diff_cancel_left')
  have c1: "map formula_of L = map expr ?sel @ [z3_Not s conclusion]"
    unfolding L by (rule solver_assertions_formulas)
  have c0: "map formula_of L
     = map expr (filter (\<lambda>a. score a = None) assumptions) @ map expr (take 120 ?ys)
       @ [z3_Not s conclusion]"
    unfolding c1 by (simp add: select_assumptions_def Let_def)
  note link = solve_by_check [OF L idx]
  have c4: "sorted (map (\<lambda>a. the (score a)) (filter (\<lambda>a. score a \<noteq> None) ?sel))"
    unfolding sel_scored using srt by (simp add: sorted_wrt_take take_map [symmetric] del: sorted_sort_key)
  have c5: "length (filter (\<lambda>a. score a \<noteq> None) ?sel) = min 120 (length ?scored)"
    unfolding sel_scored by simp
  have c6: "mset ?sel \<subseteq># mset assumptions"
    using m by (metis mset_subset_eq_add_left)
  have c7: "\<forall>a \<in># mset assumptions - mset ?sel.
      score a \<noteq> None \<and> (\<forall>b \<in> set ?sel. score b \<noteq> None \<longrightarrow> the (score b) \<le> the (score a))"
  proof (intro ballI conjI impI)
    fix a assume "a \<in># mset assumptions - mset ?sel"
    then have a: "a \<in> set (drop 120 ?ys)" by (simp add: dropped)
    then have "a \<in> set ?ys" by (rule in_set_dropD)
    then show "score a \<noteq> None" by simp
    fix b assume "b \<in> set ?sel" "score b \<noteq> None"
    then have "b \<in> set (filter (\<lambda>a. score a \<noteq> None) ?sel)" by simp
    then have "b \<in> set (take 120 ?ys)" by (simp only: sel_scored)
    then show "the (score b) \<le> the (score a)"
      using sorted_take_drop_le [OF srt _ a] by blast
  qed
  show ?thesis
    using c0 c1 link sel_required [of assumptions] sel_scored [of assumptions] c4 c5 c6 c7
    by blast
qed

theorem solve_asserts_required_and_top_scored_witness:
  "map formula_of (solver_assertions sat_solver False
        (select_assumptions [stmt_scored 7, stmt_required, stmt_scored 3]) ''goal'')
     = [''false'', ''axiom'', ''axiom'', ''not goal''] \<and>
   select_assumptions [stmt_scored 7, stmt_required, stmt_scored 3]
     = [stmt_required, stmt_scored 3, stmt_scored 7] \<and>
   check sat_solver (solver_assertions sat_solver False
        (select_assumptions [stmt_scored 7, stmt_required, stmt_scored 3]) ''goal'') = sat \<and>
   solve sat_solver False [stmt_scored 7, stmt_required, stmt_scored 3] ''goal'' = Inr (Some False, []) \<and>
   length (filter (\<lambda>a. score a \<noteq> None)
      (select_assumptions (stmt_required # map (\<lambda>k. stmt_scored (int k)) [0..<121]))) = 120 \<and>
   filter (\<lambda>a. score a = None)
      (select_assumptions (stmt_required # map (\<lambda>k. stmt_scored (int k)) [0..<121])) = [stmt_required]"
proof -
  let ?small = "[stmt_scored 7, stmt_required, stmt_scored 3]"
  let ?big = "stmt_required # map (\<lambda>k. stmt_scored (int k)) [0..<121]"
  note small = solve_asserts_required_and_top_scored
    [where s = sat_solver and make_repro_case = False and assumptions = ?small
       and conclusion = "''goal''", OF refl refl]
  note big = solve_asserts_required_and_top_scored
    [where s = sat_solver and make_repro_case = False and assumptions = ?big
       and conclusion = "''goal''", OF refl refl]
  have sel: "select_assumptions ?small = [stmt_required, stmt_scored 3, stmt_scored 7]"
    by (simp add: select_assumptions_def stmt_scored_def stmt_required_def)
  have chk: "check sat_solver (solver_assertions sat_solver False (select_assumptions ?small) ''goal'') = sat"
    by (simp add: sat_solver_def)
  have idx: "report (stmt_index False (select_assumptions ?small)) [] = []"
    unfolding sel by (simp add: stmt_index_def report_def stmt_scored_def stmt_required_def)
  from small chk have "solve sat_solver False ?small ''goal''
      = Inr (Some False, report (stmt_index False (select_assumptions ?small)) [])"
    by blast
  then have c4: "solve sat_solver False ?small ''goal'' = Inr (Some False, [])"
    unfolding idx .
  from small have "map formula_of (solver_assertions sat_solver False (select_assumptions ?small) ''goal'')
      = map expr (select_assumptions ?small) @ [z3_Not sat_solver ''goal'']"
    by blast
  then have c1: "map formula_of (solver_assertions sat_solver False (select_assumptions ?small) ''goal'')
      = [''false'', ''axiom'', ''axiom'', ''not goal'']"
    unfolding sel by (simp add: stmt_scored_def stmt_required_def sat_solver_def)
  have n: "length (filter (\<lambda>a. score a \<noteq> None) ?big) = 121"
    by (simp add: filter_map comp_def stmt_scored_def stmt_required_def)
  have r: "filter (\<lambda>a. score a = None) ?big = [stmt_required]"
    by (simp add: filter_map comp_def stmt_scored_def stmt_required_def)
  from big have "length (filter (\<lambda>a. score a \<noteq> None) (select_assumptions ?big))
      = min 120 (length (filter (\<lambda>a. score a \<noteq> None) ?big))"
    by blast
  then have c5: "length (filter (\<lambda>a. score a \<noteq> None) (select_assumptions ?big)) = 120"
    unfolding n by simp
  from big have "filter (\<lambda>a. score a = None) (select_assumptions ?big)
      = filter (\<lambda>a. score a = None) ?big"
    by blast
  then have c6: "filter (\<lambda>a. score a = None) (select_assumptions ?big) = [stmt_required]"
    unfolding r .
  from c1 sel chk c4 c5 c6 show ?thesis by blast
qed

lemma print_core_ok:
  "(\<forall>l \<in> set core. l = ''conclusion'' \<or> map_of idx l \<noteq> None) \<Longrightarrow> print_core idx core = Inr ()"
  by (induction core) (auto split: option.splits)

text \<open>
  C1: in tracked mode \<open>solve\<close> answers \<open>True\<close> only when the solver reports
  unsatisfiable and the label \<open>conclusion\<close> is in the core.  When the solver reports
  unsatisfiable and the label is not in the core, \<open>solve\<close> raises; the exception is the
  soundness failure whenever the core names tracked statements only, as the core of a
  solver does.
\<close>

theorem solve_soundness_check:
  "\<not> make_repro_case \<Longrightarrow>
   asserted = solver_assertions s make_repro_case (select_assumptions assumptions) conclusion \<Longrightarrow>
   (\<forall>r. solve s make_repro_case assumptions conclusion = Inr (Some True, r) \<longrightarrow>
        check s asserted = unsat \<and> ''conclusion'' \<in> set (unsat_core s asserted)) \<and>
   (check s asserted = unsat \<and> ''conclusion'' \<notin> set (unsat_core s asserted) \<longrightarrow>
        (\<exists>e. solve s make_repro_case assumptions conclusion = Inl e) \<and>
        ((\<forall>l \<in> set (unsat_core s asserted).
            map_of (stmt_index make_repro_case (select_assumptions assumptions)) l \<noteq> None) \<longrightarrow>
         solve s make_repro_case assumptions conclusion = Inl SoundnessFailure))"
proof (intro conjI allI impI)
  fix r
  assume a: "\<not> make_repro_case"
    "asserted = solver_assertions s make_repro_case (select_assumptions assumptions) conclusion"
    "solve s make_repro_case assumptions conclusion = Inr (Some True, r)"
  then show "check s asserted = unsat"
    by (auto simp: solve_def Let_def split: check_result.splits if_splits sum.splits)
  from a show "''conclusion'' \<in> set (unsat_core s asserted)"
    by (auto simp: solve_def Let_def split: check_result.splits if_splits sum.splits)
next
  assume a: "\<not> make_repro_case"
    "asserted = solver_assertions s make_repro_case (select_assumptions assumptions) conclusion"
    "check s asserted = unsat \<and> ''conclusion'' \<notin> set (unsat_core s asserted)"
  then show "\<exists>e. solve s make_repro_case assumptions conclusion = Inl e"
    by (auto simp: solve_def Let_def split: sum.splits)
  assume "\<forall>l \<in> set (unsat_core s asserted).
            map_of (stmt_index make_repro_case (select_assumptions assumptions)) l \<noteq> None"
  then have "print_core (stmt_index make_repro_case (select_assumptions assumptions))
      (unsat_core s asserted) = Inr ()"
    by (intro print_core_ok) blast
  with a show "solve s make_repro_case assumptions conclusion = Inl SoundnessFailure"
    by (simp add: solve_def Let_def)
qed

theorem solve_soundness_check_witness:
  "\<not> False \<and>
   check axioms_only_solver
     (solver_assertions axioms_only_solver False (select_assumptions [stmt_required]) ''goal'') = unsat \<and>
   ''conclusion'' \<notin> set (unsat_core axioms_only_solver
     (solver_assertions axioms_only_solver False (select_assumptions [stmt_required]) ''goal'')) \<and>
   solve axioms_only_solver False [stmt_required] ''goal'' = Inl SoundnessFailure"
  using solve_soundness_check [of False _ axioms_only_solver "[stmt_required]" "''goal''", OF _ refl]
  by (simp add: axioms_only_solver_def stmt_index_def select_assumptions_def stmt_required_def
        format_nat.simps)

subsection \<open>Logic compiler\<close>

lemma compare_loop_append:
  "compare_loop W (ps @ qs) ret lv st =
     (case compare_loop W ps ret lv st of
        Inl e \<Rightarrow> Inl e
      | Inr ((ret', lv'), st') \<Rightarrow> compare_loop W qs ret' lv' st')"
  by (induction ps arbitrary: ret lv st) (auto split: sum.splits prod.splits)

lemma compare_loop_chain:
  "ps \<noteq> [] \<Longrightarrow>
   (case visit W (snd (last ps)) st of
      Inl e \<Rightarrow> Inl e
    | Inr (lv, st1) \<Rightarrow>
        compare_loop W (rev (zip (map fst ps) (left # butlast (map snd ps)))) ONone lv st1)
   = chained_comparison W left ps st"
proof (induction ps arbitrary: left st)
  case Nil
  then show ?case by simp
next
  case (Cons p ps)
  obtain op right where p: "p = (op, right)" by (cases p)
  show ?case
  proof (cases "ps = []")
    case True
    with p show ?thesis
      by (auto split: sum.splits prod.splits)
  next
    case False
    have "(case visit W (snd (last ps)) st of
             Inl e \<Rightarrow> Inl e
           | Inr (lv, st1) \<Rightarrow>
               compare_loop W (rev (zip (map fst ps) (right # butlast (map snd ps)))) ONone lv st1)
          = chained_comparison W right ps st"
      using Cons.IH [OF False] .
    with False p show ?thesis
      by (auto simp: compare_loop_append split: sum.splits prod.splits)
  qed
qed

lemma zip_shift:
  "length ops = length cs \<Longrightarrow> cs \<noteq> [] \<Longrightarrow>
   zip (map fst (zip ops cs)) (left # butlast (map snd (zip ops cs)))
     = (hd ops, left) # zip (tl ops) (butlast cs)"
  by (cases ops; cases cs) simp_all

lemma last_zip_snd:
  "length ops = length cs \<Longrightarrow> cs \<noteq> [] \<Longrightarrow> snd (last (zip ops cs)) = last cs"
  by (induction ops cs rule: list_induct2) (auto simp: zip_eq_Nil_iff)

text \<open>
  C6: compiling a comparison with as many operators as comparators (at least one) is
  the chained comparison of the specification: the conjunction of the pairwise
  comparisons, nested to the right and built from the right, each operand compiled by
  one call of \<open>visit\<close> whose result serves both comparisons next to it.  The witness is
  the doctest \<open>0 <= 5 < 9\<close>, which compiles to the very term that the conjunction
  \<open>(0 <= 5) and (5 < 9)\<close> compiles to.
\<close>

theorem visit_Compare_chain:
  "length ops = length comparators \<Longrightarrow> comparators \<noteq> [] \<Longrightarrow>
   visit W (Compare left ops comparators) st =
     (case chained_comparison W left (zip ops comparators) st of
        Inl e \<Rightarrow> Inl e
      | Inr ((res, l), st') \<Rightarrow> Inr (res, st'))"
proof -
  assume len: "length ops = length comparators" and ne: "comparators \<noteq> []"
  let ?ps = "zip ops comparators"
  from len ne have ops: "ops \<noteq> []" by auto
  with len ne have ps: "?ps \<noteq> []" by (simp add: zip_eq_Nil_iff)
  have sh: "rev (zip (map fst ?ps) (left # butlast (map snd ?ps)))
      = rev (zip (tl ops) (butlast comparators)) @ [(hd ops, left)]"
    using zip_shift [OF len ne] by simp
  have "chained_comparison W left ?ps st =
     (case visit W (last comparators) st of
        Inl e \<Rightarrow> Inl e
      | Inr (lv, st1) \<Rightarrow>
          compare_loop W (rev (zip (tl ops) (butlast comparators)) @ [(hd ops, left)]) ONone lv st1)"
    using compare_loop_chain [OF ps, where W = W and st = st and left = left, symmetric]
    unfolding last_zip_snd [OF len ne] sh .
  then show ?thesis
    using ne ops
    by (auto simp: compare_loop_append split: sum.splits prod.splits)
qed

theorem visit_Compare_chain_witness:
  "length [Other ''LtE'' [], Other ''Lt'' []] = length [Num 5, Num 9] \<and> [Num 5, Num 9] \<noteq> [] \<and>
   (\<exists>st'. visit doctest_world (Compare (Num 0) [Other ''LtE'' [], Other ''Lt'' []] [Num 5, Num 9])
            new_transformer =
       Inr (OTerm (App (Const ''_op_And'')
              (Unk_a (Unk_a Unk_empty
                 (App (Const ''_op_LtE'') (Unk_a (Unk_a Unk_empty (Unk_int 0)) (Unk_int 5))))
                 (App (Const ''_op_Lt'') (Unk_a (Unk_a Unk_empty (Unk_int 5)) (Unk_int 9))))), st')) \<and>
   (\<exists>st'. visit doctest_world
            (BoolOp (Other ''And'' [])
               [Compare (Num 0) [Other ''LtE'' []] [Num 5], Compare (Num 5) [Other ''Lt'' []] [Num 9]])
            new_transformer =
       Inr (OTerm (App (Const ''_op_And'')
              (Unk_a (Unk_a Unk_empty
                 (App (Const ''_op_LtE'') (Unk_a (Unk_a Unk_empty (Unk_int 0)) (Unk_int 5))))
                 (App (Const ''_op_Lt'') (Unk_a (Unk_a Unk_empty (Unk_int 5)) (Unk_int 9))))), st'))"
  using visit_Compare_chain [where ops = "[Other ''LtE'' [], Other ''Lt'' []]"
      and comparators = "[Num 5, Num 9]" and W = doctest_world and left = "Num 0"
      and st = new_transformer]
  by (simp add: doctest_world_def new_transformer_def op_info_def op_def_def FnInfo_init_def
        register_op_def fn_for_op_def get_fn_def get_definition_def register_def z3apply_def
        compare_add_def)

text \<open>
  C7: compiling a subscript never gets as far as an application.  With a single index
  or a slice, \<open>handle_subscript\<close> first reads \<open>self.env.ops\<close>, which a \<open>Z3BindingEnv\<close> does
  not have; with an extended slice it reads the undefined name \<open>index\<close>.  So does the
  expression \<open>(1, 2)[0]\<close>.
\<close>

theorem handle_subscript_raises:
  "handle_subscript W value (Index v) st = Inl (AttributeError ''ops'') \<and>
   handle_subscript W value (Slice lower upper step) st = Inl (AttributeError ''ops'') \<and>
   handle_subscript W value (ExtSlice dims) st = Inl (NameError ''index'') \<and>
   visit W (Subscript (Tuple [Num 1, Num 2] Load) (Index (Num 0))) st = Inl (AttributeError ''ops'')"
  by (simp add: env_ops_def)

subsection \<open>Knowledge expansion\<close>

lemma expand_functions_result:
  "expand_functions W B fis (be, h, a) = Inr (be', h', a') \<Longrightarrow>
   h' = h \<union> ((\<lambda>(n, fninfo). def_key (get_definition fninfo)) ` set fis \<inter> B) \<and>
   (a' \<longleftrightarrow> a \<or> (\<lambda>(n, fninfo). def_key (get_definition fninfo)) ` set fis \<inter> B \<noteq> {}) \<and>
   ((\<lambda>(n, fninfo). def_key (get_definition fninfo)) ` set fis \<inter> B = {} \<longrightarrow> be' = be)"
proof (induction fis arbitrary: be h a)
  case Nil
  then show ?case by simp
next
  case (Cons p fis)
  obtain n fninfo where p: "p = (n, fninfo)" by (cases p)
  let ?k = "def_key (get_definition fninfo)"
  show ?case
  proof (cases "?k \<in> B")
    case True
    with Cons.prems p obtain be1 where
      r: "expand_functions W B fis (be1, insert ?k h, True) = Inr (be', h', a')"
      by (auto split: sum.splits)
    from Cons.IH [OF r] True p show ?thesis by auto
  next
    case False
    with Cons.prems p have
      r: "expand_functions W B fis (be, h, a) = Inr (be', h', a')"
      by simp
    from Cons.IH [OF r] False p show ?thesis by auto
  qed
qed

lemma expansion_round_result:
  assumes "expansion_round W s = Inr (s', added)"
  shows "handled s' = handled s \<union> (registry_keys W \<inter> (dom (refs (x_env s)) - handled s))"
    and "added \<longleftrightarrow> registry_keys W \<inter> (dom (refs (x_env s)) - handled s) \<noteq> {}"
    and "iterations s' = Suc (iterations s)"
    and "completed s' = completed s"
    and "\<not> added \<Longrightarrow> refs (x_env s') = refs (x_env s)"
proof -
  let ?b = "baseline s @ map (\<lambda>f. Some (make_statement_expr W f)) (support (x_env s))"
  let ?e = "\<lparr> refs = refs (x_env s), support = [] \<rparr>"
  let ?B = "dom (refs (x_env s)) - handled s"
  from assms obtain b e h where
    r: "expand_functions W ?B (pure_functions W) ((?b, ?e), handled s, False) = Inr ((b, e), h, added)"
    and s': "s' = s\<lparr> baseline := b, x_env := e, handled := h, iterations := Suc (iterations s) \<rparr>"
    by (auto simp: expansion_round_def Let_def split: sum.splits)
  note res = expand_functions_result [OF r]
  show "handled s' = handled s \<union> (registry_keys W \<inter> (dom (refs (x_env s)) - handled s))"
    using res s' by (simp add: registry_keys_def)
  show "added \<longleftrightarrow> registry_keys W \<inter> (dom (refs (x_env s)) - handled s) \<noteq> {}"
    using res by (simp add: registry_keys_def)
  show "iterations s' = Suc (iterations s)" using s' by simp
  show "completed s' = completed s" using s' by simp
  show "refs (x_env s') = refs (x_env s)" if "\<not> added"
  proof -
    from that res have "(b, e) = (?b, ?e)" by simp
    with s' show ?thesis by simp
  qed
qed

lemma finite_registry_keys: "finite (registry_keys W)"
  by (simp add: registry_keys_def)

lemma expansion_loop_result:
  "expansion_loop W n s = Inr s' \<Longrightarrow> \<not> completed s \<Longrightarrow> finite (handled s) \<Longrightarrow>
   iterations s' \<le> iterations s + n \<and>
   (completed s' \<longrightarrow> closure_reached W s') \<and>
   (\<not> completed s' \<longrightarrow> iterations s' = iterations s + n) \<and>
   handled s \<subseteq> handled s' \<and> handled s' \<subseteq> handled s \<union> registry_keys W \<and>
   card (handled s) + (iterations s' - iterations s)
     \<le> card (handled s') + (if completed s' then 1 else 0)"
proof (induction n arbitrary: s)
  case 0
  then show ?case by simp
next
  case (Suc n)
  from Suc.prems(1) obtain s1 added where r: "expansion_round W s = Inr (s1, added)"
    by (auto split: sum.splits)
  note res = expansion_round_result [OF r]
  show ?case
  proof (cases added)
    case False
    with Suc.prems(1) r have s': "s' = s1\<lparr> completed := True \<rparr>" by simp
    from False res(2) have empty: "registry_keys W \<inter> (dom (refs (x_env s)) - handled s) = {}"
      by simp
    with res(1) have h: "handled s1 = handled s" by simp
    from res(5) [OF False] have refs: "refs (x_env s1) = refs (x_env s)" .
    have "closure_reached W s'"
      using empty h refs s' by (auto simp: closure_reached_def)
    then show ?thesis using s' h res(3) by simp
  next
    case True
    with Suc.prems(1) r have loop: "expansion_loop W n s1 = Inr s'" by simp
    from res(4) Suc.prems(2) have nc: "\<not> completed s1" by simp
    from res(1) Suc.prems(3) have fin: "finite (handled s1)"
      by (simp add: finite_registry_keys)
    note ih = Suc.IH [OF loop nc fin]
    from True res(2) obtain k where k: "k \<in> registry_keys W" "k \<in> dom (refs (x_env s))"
      "k \<notin> handled s" by auto
    with res(1) have "handled s \<subset> handled s1" by auto
    with fin have "card (handled s) < card (handled s1)" by (rule psubset_card_mono)
    moreover from res(1) have "handled s \<subseteq> handled s1" "handled s1 \<subseteq> handled s \<union> registry_keys W"
      by auto
    ultimately show ?thesis using ih res(3) by auto
  qed
qed

lemma expand_functions_nothing:
  "(\<lambda>(n, fninfo). def_key (get_definition fninfo)) ` set fis \<inter> B = {} \<Longrightarrow>
   expand_functions W B fis acc = Inr acc"
proof (induction fis)
  case Nil
  then show ?case by simp
next
  case (Cons p fis)
  obtain n fninfo where p: "p = (n, fninfo)" by (cases p)
  obtain be h a where acc: "acc = (be, h, a)" by (cases acc)
  from Cons.prems p have "def_key (get_definition fninfo) \<notin> B" by auto
  moreover from Cons.prems have
    "(\<lambda>(n, fninfo). def_key (get_definition fninfo)) ` set fis \<inter> B = {}" by auto
  ultimately show ?case using Cons.IH p acc by simp
qed

lemma expansion_round_nothing:
  assumes "unhandled_referenced W s = {}"
  shows "\<exists>s1. expansion_round W s = Inr (s1, False) \<and> handled s1 = handled s \<and>
              refs (x_env s1) = refs (x_env s) \<and> iterations s1 = Suc (iterations s) \<and>
              completed s1 = completed s"
proof -
  let ?b = "baseline s @ map (\<lambda>f. Some (make_statement_expr W f)) (support (x_env s))"
  let ?e = "\<lparr> refs = refs (x_env s), support = [] \<rparr>"
  let ?B = "dom (refs (x_env s)) - handled s"
  from assms have "(\<lambda>(n, fninfo). def_key (get_definition fninfo)) ` set (pure_functions W) \<inter> ?B = {}"
    by (simp add: unhandled_referenced_def registry_keys_def)
  then have "expand_functions W ?B (pure_functions W) ((?b, ?e), handled s, False)
      = Inr ((?b, ?e), handled s, False)"
    by (rule expand_functions_nothing)
  then show ?thesis by (simp add: expansion_round_def Let_def)
qed

lemma early_stop:
  "adding_rounds W j s = Some t \<Longrightarrow> unhandled_referenced W t = {} \<Longrightarrow> j < n \<Longrightarrow>
   \<exists>s'. expansion_loop W n s = Inr s' \<and> completed s' \<and> iterations s' = iterations s + Suc j \<and>
        handled s' = handled t \<and> refs (x_env s') = refs (x_env t)"
proof (induction j arbitrary: s n)
  case 0
  then obtain n' where n: "n = Suc n'" by (cases n) auto
  from 0 have t: "t = s" by simp
  from expansion_round_nothing [OF 0(2)] t obtain s1 where
    "expansion_round W s = Inr (s1, False)" "handled s1 = handled s"
    "refs (x_env s1) = refs (x_env s)" "iterations s1 = Suc (iterations s)"
    by auto
  with n t show ?case by simp
next
  case (Suc j)
  then obtain n' where n: "n = Suc n'" "j < n'" by (cases n) auto
  from Suc.prems(1) have ne: "unhandled_referenced W s \<noteq> {}" by (auto split: if_splits)
  with Suc.prems(1) obtain s1 a where
    r: "expansion_round W s = Inr (s1, a)" and rest: "adding_rounds W j s1 = Some t"
    by (auto split: sum.splits)
  note res = expansion_round_result [OF r]
  from res(2) ne have a: a by (simp add: unhandled_referenced_def)
  from Suc.IH [OF rest Suc.prems(2) n(2)] obtain s' where
    "expansion_loop W n' s1 = Inr s'" "completed s'" "iterations s' = iterations s1 + Suc j"
    "handled s' = handled t" "refs (x_env s') = refs (x_env t)" by auto
  with r a n res(3) show ?case by simp
qed

lemma cap_reached:
  "adding_rounds W n s = Some t \<Longrightarrow>
   expansion_loop W n s = Inr t \<and> iterations t = iterations s + n \<and> completed t = completed s"
proof (induction n arbitrary: s)
  case 0
  then show ?case by simp
next
  case (Suc n)
  from Suc.prems have ne: "unhandled_referenced W s \<noteq> {}" by (auto split: if_splits)
  with Suc.prems obtain s1 a where
    r: "expansion_round W s = Inr (s1, a)" and rest: "adding_rounds W n s1 = Some t"
    by (auto split: sum.splits)
  note res = expansion_round_result [OF r]
  from res(2) ne have a: a by (simp add: unhandled_referenced_def)
  from Suc.IH [OF rest] r a res(3,4) show ?case by simp
qed

lemma loop_rounds:
  "expansion_loop W n s = Inr s' \<Longrightarrow> \<not> completed s \<Longrightarrow>
   (completed s' \<longrightarrow>
      (\<exists>j t. j < n \<and> adding_rounds W j s = Some t \<and> unhandled_referenced W t = {} \<and>
             iterations s' = iterations s + Suc j)) \<and>
   (\<not> completed s' \<longrightarrow> adding_rounds W n s = Some s')"
proof (induction n arbitrary: s)
  case 0
  then show ?case by simp
next
  case (Suc n)
  from Suc.prems(1) obtain s1 a where r: "expansion_round W s = Inr (s1, a)"
    by (auto split: sum.splits)
  note res = expansion_round_result [OF r]
  show ?case
  proof (cases a)
    case False
    with Suc.prems(1) r have s': "s' = s1\<lparr> completed := True \<rparr>" by simp
    from False res(2) have "unhandled_referenced W s = {}"
      by (simp add: unhandled_referenced_def)
    moreover have "adding_rounds W 0 s = Some s" by simp
    ultimately have "\<exists>j t. j < Suc n \<and> adding_rounds W j s = Some t \<and>
        unhandled_referenced W t = {} \<and> iterations s' = iterations s + Suc j"
      using s' res(3) by (intro exI [of _ 0] exI [of _ s]) simp
    with s' show ?thesis by simp
  next
    case True
    with Suc.prems(1) r have loop: "expansion_loop W n s1 = Inr s'" by simp
    from res(4) Suc.prems(2) have nc: "\<not> completed s1" by simp
    from True res(2) have ne: "unhandled_referenced W s \<noteq> {}"
      by (simp add: unhandled_referenced_def)
    note ih = Suc.IH [OF loop nc]
    show ?thesis
    proof (intro conjI impI)
      assume "completed s'"
      with ih obtain j t where
        "j < n" "adding_rounds W j s1 = Some t" "unhandled_referenced W t = {}"
        "iterations s' = iterations s1 + Suc j" by auto
      with ne r res(3) show "\<exists>j t. j < Suc n \<and> adding_rounds W j s = Some t \<and>
          unhandled_referenced W t = {} \<and> iterations s' = iterations s + Suc j"
        by (intro exI [of _ "Suc j"] exI [of _ t]) simp
    next
      assume "\<not> completed s'"
      with ih have "adding_rounds W n s1 = Some s'" by simp
      with ne r show "adding_rounds W (Suc n) s = Some s'" by simp
    qed
  qed
qed

text \<open>
  C4: a run of the knowledge-expansion loop that returns has executed its body at most
  10 times.  A round adds a definition exactly when, at its start, some registered
  definition is referenced and not yet handled, and it handles exactly those.  The
  loop ends in the first round (of the ten) that starts with none: if the \<open>j\<close> rounds
  before it each had one and the next has none, the loop returns after \<open>j + 1\<close>
  rounds, through its \<open>break\<close>, with nothing handled or referenced beyond the state at
  the start of that round, and then every registered definition that is referenced is
  handled (the closure is reached).  If ten rounds in a row each start with such a
  definition, the loop returns after the tenth without the \<open>break\<close>.  A returning run
  is always one of the two; and a registry with fewer than 10 definitions always ends
  at the closure.
\<close>

theorem knowledge_expansion_rounds:
  "(\<forall>s. knowledge_expansion W baseline0 env0 = Inr s \<longrightarrow>
      iterations s \<le> 10 \<and>
      (completed s \<longrightarrow> closure_reached W s) \<and>
      (\<not> completed s \<longrightarrow> iterations s = 10) \<and>
      handled s \<subseteq> registry_keys W \<and>
      iterations s \<le> card (handled s) + (if completed s then 1 else 0) \<and>
      (card (registry_keys W) < 10 \<longrightarrow> completed s) \<and>
      (completed s \<longrightarrow>
         (\<exists>j t. j < 10 \<and> adding_rounds W j (initial_expansion baseline0 env0) = Some t \<and>
                unhandled_referenced W t = {} \<and> iterations s = Suc j)) \<and>
      (\<not> completed s \<longrightarrow> adding_rounds W 10 (initial_expansion baseline0 env0) = Some s)) \<and>
   (\<forall>j t. j < 10 \<and> adding_rounds W j (initial_expansion baseline0 env0) = Some t \<and>
          unhandled_referenced W t = {} \<longrightarrow>
      (\<exists>s. knowledge_expansion W baseline0 env0 = Inr s \<and> completed s \<and>
           iterations s = Suc j \<and> handled s = handled t \<and>
           refs (x_env s) = refs (x_env t))) \<and>
   (\<forall>t. adding_rounds W 10 (initial_expansion baseline0 env0) = Some t \<longrightarrow>
      knowledge_expansion W baseline0 env0 = Inr t \<and> \<not> completed t \<and> iterations t = 10) \<and>
   (\<forall>s s1 addedone. expansion_round W s = Inr (s1, addedone) \<longrightarrow>
      (addedone \<longleftrightarrow> unhandled_referenced W s \<noteq> {}) \<and>
      handled s1 = handled s \<union> unhandled_referenced W s)"
proof (intro conjI allI impI)
  let ?s0 = "initial_expansion baseline0 env0"
  have ke: "knowledge_expansion W baseline0 env0 = expansion_loop W 10 ?s0"
    by (simp add: knowledge_expansion_def MAX_DEPTH_def initial_expansion_def)
  have s0: "\<not> completed ?s0" "finite (handled ?s0)" "iterations ?s0 = 0" "handled ?s0 = {}"
    by (simp_all add: initial_expansion_def)
  {
    fix s assume r: "knowledge_expansion W baseline0 env0 = Inr s"
    then have loop: "expansion_loop W 10 ?s0 = Inr s" by (simp add: ke)
    note res = expansion_loop_result [OF loop s0(1,2)]
    note rounds = loop_rounds [OF loop s0(1)]
    from res s0 show "iterations s \<le> 10" by simp
    from res show "closure_reached W s" if "completed s" using that by simp
    from res s0 show "iterations s = 10" if "\<not> completed s" using that by simp
    from res s0 show h: "handled s \<subseteq> registry_keys W" by simp
    from res s0 show c: "iterations s \<le> card (handled s) + (if completed s then 1 else 0)"
      by simp
    show "completed s" if small: "card (registry_keys W) < 10"
    proof (rule ccontr)
      assume nc: "\<not> completed s"
      with res s0 c have "10 \<le> card (handled s)" by simp
      also from h have "card (handled s) \<le> card (registry_keys W)"
        by (intro card_mono finite_registry_keys)
      finally show False using small by simp
    qed
    from rounds s0 show "\<exists>j t. j < 10 \<and> adding_rounds W j ?s0 = Some t \<and>
        unhandled_referenced W t = {} \<and> iterations s = Suc j" if "completed s"
      using that by simp
    from rounds show "adding_rounds W 10 ?s0 = Some s" if "\<not> completed s"
      using that by simp
  }
  {
    fix j t
    assume a: "j < 10 \<and> adding_rounds W j ?s0 = Some t \<and> unhandled_referenced W t = {}"
    then have "\<exists>s'. expansion_loop W 10 ?s0 = Inr s' \<and> completed s' \<and>
        iterations s' = iterations ?s0 + Suc j \<and> handled s' = handled t \<and>
        refs (x_env s') = refs (x_env t)"
      by (intro early_stop) simp_all
    then show "\<exists>s. knowledge_expansion W baseline0 env0 = Inr s \<and> completed s \<and>
        iterations s = Suc j \<and> handled s = handled t \<and> refs (x_env s) = refs (x_env t)"
      using s0 by (simp add: ke)
  }
  {
    fix t assume a: "adding_rounds W 10 ?s0 = Some t"
    note c = cap_reached [OF a]
    from c show "knowledge_expansion W baseline0 env0 = Inr t" by (simp add: ke)
    from c s0 show "\<not> completed t" by simp
    from c s0 show "iterations t = 10" by simp
  }
  {
    fix s s1 addedone assume r: "expansion_round W s = Inr (s1, addedone)"
    note res = expansion_round_result [OF r]
    from res(2) show "addedone \<longleftrightarrow> unhandled_referenced W s \<noteq> {}"
      by (simp add: unhandled_referenced_def)
    from res(1) show "handled s1 = handled s \<union> unhandled_referenced W s"
      by (simp add: unhandled_referenced_def)
  }
qed

theorem knowledge_expansion_rounds_witness:
  "adding_rounds chain_prover 2 (initial_expansion [] env_f) = Some after_round_two \<and>
   unhandled_referenced chain_prover (initial_expansion [] env_f) = {OFunctionDef def_one} \<and>
   unhandled_referenced chain_prover after_round_one = {OFunctionDef (op_def ''g'')} \<and>
   unhandled_referenced chain_prover after_round_two = {} \<and>
   knowledge_expansion chain_prover [] env_f = Inr chain_expanded \<and>
   iterations chain_expanded = 3 \<and> completed chain_expanded \<and>
   closure_reached chain_prover chain_expanded \<and>
   card (registry_keys chain_prover) < 10"
proof -
  note t = knowledge_expansion_rounds [of chain_prover "[]" env_f]
  have ne: "def_one \<noteq> op_def ''g''"
    by (simp add: def_one_def op_def_def)
  have keys: "registry_keys chain_prover = {OFunctionDef def_one, OFunctionDef (op_def ''g'')}"
    by (auto simp: registry_keys_def chain_prover_def get_definition_def FnInfo_init_def)
  have u0: "unhandled_referenced chain_prover (initial_expansion [] env_f) = {OFunctionDef def_one}"
    using ne by (auto simp: unhandled_referenced_def keys initial_expansion_def env_f_def)
  have u1: "unhandled_referenced chain_prover after_round_one = {OFunctionDef (op_def ''g'')}"
    using ne by (auto simp: unhandled_referenced_def keys after_round_one_def env_f_g_def)
  have u2: "unhandled_referenced chain_prover after_round_two = {}"
    by (auto simp: unhandled_referenced_def keys after_round_two_def)
  have r1: "expansion_round chain_prover (initial_expansion [] env_f) = Inr (after_round_one, True)"
    using ne
    by (simp add: expansion_round_def initial_expansion_def after_round_one_def
          chain_prover_def env_f_def env_f_g_def expand_function_def
          get_definition_def get_assertions_def FnInfo_init_def Let_def)
  have r2: "expansion_round chain_prover after_round_one = Inr (after_round_two, True)"
    using ne
    by (simp add: expansion_round_def after_round_two_def after_round_one_def
          chain_prover_def env_f_g_def expand_function_def
          get_definition_def get_assertions_def FnInfo_init_def Let_def insert_commute)
  have r3: "expansion_round chain_prover after_round_two
      = Inr (after_round_two\<lparr> iterations := 3 \<rparr>, False)"
    using ne
    by (simp add: expansion_round_def after_round_two_def
          chain_prover_def env_f_g_def expand_function_def
          get_definition_def get_assertions_def FnInfo_init_def Let_def)
  have a2: "adding_rounds chain_prover 2 (initial_expansion [] env_f) = Some after_round_two"
    using u0 u1 r1 r2 by (simp add: numeral_2_eq_2)
  have "(2::nat) < 10" by simp
  with t a2 u2 obtain s where s: "knowledge_expansion chain_prover [] env_f = Inr s"
    "completed s" "iterations s = Suc 2"
    by blast
  have run: "knowledge_expansion chain_prover [] env_f = Inr chain_expanded"
    using r1 r2 r3
    by (simp add: knowledge_expansion_def MAX_DEPTH_def numeral_eq_Suc
          initial_expansion_def after_round_two_def chain_expanded_def)
  with s have e: "s = chain_expanded" by simp
  from t s(1,2) have "closure_reached chain_prover s" by blast
  with e s keys a2 u0 u1 u2 run ne show ?thesis by simp
qed

end
